theory Spec2Isabelle
  imports Main "HOL-Library.AList"
begin

section \<open>JavaScript arrays\<close>

text \<open>
  The two array methods the topics use on their session lists.
  \<open>Array.prototype.indexOf\<close> compares with strict equality and answers \<open>-1\<close> when the
  element is not found; the index is therefore an \<open>int\<close>.
\<close>

fun indexOf :: "'a list \<Rightarrow> 'a \<Rightarrow> int" where
  "indexOf [] x = - 1"
| "indexOf (y # ys) x =
     (if y = x then 0
      else (let i = indexOf ys x in if i < 0 then - 1 else i + 1))"

text \<open>
  \<open>xs.splice(start, deleteCount)\<close>, as the list that \<open>xs\<close> is afterwards. A negative
  \<open>start\<close> counts from the end (\<open>max (len + start) 0\<close>), a \<open>start\<close> beyond the
  end is the end, and the count is clamped to what is left.
\<close>

definition splice :: "'a list \<Rightarrow> int \<Rightarrow> nat \<Rightarrow> 'a list" where
  "splice xs start deleteCount =
     (let len = int (length xs);
          actualStart = nat (if start < 0 then max (len + start) 0 else min start len);
          actualDeleteCount = min deleteCount (length xs - actualStart)
      in take actualStart xs @ drop (actualStart + actualDeleteCount) xs)"

section \<open>Errors and messages\<close>

text \<open>
  A rejected promise or a thrown exception carries an error value: a plain \<open>Error\<close> with
  its message, or an \<open>RpcError\<close> with a numeric code (404 \<open>NotFound\<close>, 504 \<open>Timeout\<close>).
  A promise that has settled is a value of \<open>error + 'a\<close>, \<open>Inl\<close> the rejection.
\<close>

datatype error = Error string | RpcError int string

text \<open>
  \<open>MessageType.Data = 13\<close>, the frame \<open>[13, id, name, params, data]\<close>. The id comes from
  \<open>createMessageId\<close>, an id generator outside these sources, and is left out.
\<close>

datatype ('p, 'd) message = Data string 'p 'd

text \<open>
  The optional argument \<open>suppliedData?: D\<close> of \<open>trigger\<close>. The code tests it with the
  loose \<open>suppliedData != undefined\<close>, which is false for \<open>undefined\<close> and for \<open>null\<close>.
\<close>

datatype 'd supplied = Undefined | Null | Defined 'd

section \<open>Server-side topics\<close>

text \<open>
  \<open>LocalTopicImpl\<close> (packages/core/src/local.ts) and \<open>ServerTopicImpl\<close> (src/rpc.ts).
  The fields of the class are \<open>supplier\<close>, \<open>name\<close> and \<open>subscribedSessions\<close>, an object
  from \<open>JSON.stringify(params)\<close> to the array of subscribed sessions. Two traces record
  what the topic does to its surroundings: the calls it makes to the supplier (parameters
  and context, in call order) and the frames it hands to \<open>session.send\<close>. A supplier is
  a function to a settled promise; \<open>this.supplier\<close> may be missing, which
  \<open>subscribeSession\<close> tests.
\<close>

record ('s, 'p, 'd, 'c) topic =
  supplier :: "('p \<Rightarrow> 'c \<Rightarrow> error + 'd) option"
  name :: string
  subscribedSessions :: "string \<rightharpoonup> 's list"
  supplierCalls :: "('p \<times> 'c) list"
  sent :: "('s \<times> ('p, 'd) message) list"

definition send :: "'s \<Rightarrow> ('p, 'd) message \<Rightarrow> ('s, 'p, 'd, 'c) topic \<Rightarrow> ('s, 'p, 'd, 'c) topic" where
  "send session m t = t\<lparr>sent := sent t @ [(session, m)]\<rparr>"

definition callSupplier :: "'p \<Rightarrow> 'c \<Rightarrow> ('s, 'p, 'd, 'c) topic \<Rightarrow> ('s, 'p, 'd, 'c) topic" where
  "callSupplier params ctx t = t\<lparr>supplierCalls := supplierCalls t @ [(params, ctx)]\<rparr>"

text \<open>
  The callback of \<open>subscribed.forEach\<close> in \<open>trigger\<close>, for one session. With supplied
  data nothing is awaited and the frame is sent at once. Otherwise the supplier is called
  with the context of this session; when its promise rejects (or \<open>this.supplier\<close> is
  missing, a \<open>TypeError\<close>) the callback's own promise rejects, nobody handles it, and no
  frame is sent. The frames of one trigger are listed in the order of the session array,
  which is the order of the calls; the order in which awaited suppliers resolve is the
  environment's.
\<close>

definition trigger_forEach ::
  "('s \<Rightarrow> 'c) \<Rightarrow> 'p \<Rightarrow> 'd supplied \<Rightarrow> 's \<Rightarrow> ('s, 'p, 'd, 'c) topic \<Rightarrow> ('s, 'p, 'd, 'c) topic" where
  "trigger_forEach createContext params suppliedData session t =
     (case suppliedData of
        Defined d \<Rightarrow> send session (Data (name t) params d) t
      | _ \<Rightarrow>
         (case supplier t of
            None \<Rightarrow> t
          | Some f \<Rightarrow>
              (let t' = callSupplier params (createContext session) t in
               case f params (createContext session) of
                 Inl e \<Rightarrow> t'
               | Inr d \<Rightarrow> send session (Data (name t') params d) t')))"

definition LocalTopicImpl_trigger ::
  "('p \<Rightarrow> string) \<Rightarrow> ('s \<Rightarrow> 'c) \<Rightarrow> 'p \<Rightarrow> 'd supplied \<Rightarrow> ('s, 'p, 'd, 'c) topic \<Rightarrow> ('s, 'p, 'd, 'c) topic" where
  "LocalTopicImpl_trigger stringify createContext params suppliedData t =
     (let key = stringify params;
          subscribed = (case subscribedSessions t key of None \<Rightarrow> [] | Some ss \<Rightarrow> ss)
      in fold (trigger_forEach createContext params suppliedData) subscribed t)"

text \<open>
  \<open>subscribeSession\<close>: the outcome of the async function and the topic afterwards. A
  session already in the array returns at once (``no double subscribe''). Otherwise the
  session is pushed before the supplier is awaited, so a rejecting supplier leaves it
  subscribed.
\<close>

definition LocalTopicImpl_subscribeSession ::
  "('p \<Rightarrow> string) \<Rightarrow> ('s \<Rightarrow> 'c) \<Rightarrow> 's \<Rightarrow> 'p \<Rightarrow> ('s, 'p, 'd, 'c) topic
     \<Rightarrow> (error + unit) \<times> ('s, 'p, 'd, 'c) topic" where
  "LocalTopicImpl_subscribeSession stringify createContext session params t =
     (let key = stringify params;
          sessions = (case subscribedSessions t key of None \<Rightarrow> [] | Some ss \<Rightarrow> ss)
      in if indexOf sessions session \<ge> 0 then (Inr (), t)
         else
           (let t1 = t\<lparr>subscribedSessions := (subscribedSessions t)(key \<mapsto> sessions @ [session])\<rparr>
            in case supplier t1 of
                 None \<Rightarrow> (Inr (), t1)
               | Some f \<Rightarrow>
                   (let t2 = callSupplier params (createContext session) t1 in
                    case f params (createContext session) of
                      Inl e \<Rightarrow> (Inl e, t2)
                    | Inr d \<Rightarrow> (Inr (), send session (Data (name t2) params d) t2))))"

text \<open>
  \<open>unsubscribeSession\<close>: the result of \<open>indexOf\<close> goes to \<open>splice\<close> as it is, and an array
  that became empty is deleted from the object.
\<close>

definition LocalTopicImpl_unsubscribeSession ::
  "('p \<Rightarrow> string) \<Rightarrow> 's \<Rightarrow> 'p \<Rightarrow> ('s, 'p, 'd, 'c) topic \<Rightarrow> ('s, 'p, 'd, 'c) topic" where
  "LocalTopicImpl_unsubscribeSession stringify session params t =
     (let key = stringify params in
      case subscribedSessions t key of
        None \<Rightarrow> t
      | Some sessions \<Rightarrow>
          (let index = indexOf sessions session;
               sessions' = splice sessions index 1
           in if length sessions' = 0
              then t\<lparr>subscribedSessions := (subscribedSessions t)(key := None)\<rparr>
              else t\<lparr>subscribedSessions := (subscribedSessions t)(key \<mapsto> sessions')\<rparr>))"

text \<open>
  \<open>ServerTopicImpl\<close> has the same three methods, with the arguments of \<open>subscribe\<close> and
  \<open>unsubscribe\<close> in the order \<open>(params, session)\<close>, and reads the context from the public
  field \<open>session.context\<close> (here \<open>session_context\<close>) where \<open>LocalTopicImpl\<close> calls
  \<open>session.createContext()\<close>.
\<close>

record ('i, 'c) RpcSession =
  sessionId :: 'i
  session_context :: 'c

definition ServerTopicImpl_trigger_forEach ::
  "'p \<Rightarrow> 'd supplied \<Rightarrow> ('i, 'c) RpcSession
     \<Rightarrow> (('i, 'c) RpcSession, 'p, 'd, 'c) topic \<Rightarrow> (('i, 'c) RpcSession, 'p, 'd, 'c) topic" where
  "ServerTopicImpl_trigger_forEach params suppliedData session t =
     (case suppliedData of
        Defined d \<Rightarrow> send session (Data (name t) params d) t
      | _ \<Rightarrow>
         (case supplier t of
            None \<Rightarrow> t
          | Some f \<Rightarrow>
              (let t' = callSupplier params (session_context session) t in
               case f params (session_context session) of
                 Inl e \<Rightarrow> t'
               | Inr d \<Rightarrow> send session (Data (name t') params d) t')))"

definition ServerTopicImpl_trigger ::
  "('p \<Rightarrow> string) \<Rightarrow> 'p \<Rightarrow> 'd supplied
     \<Rightarrow> (('i, 'c) RpcSession, 'p, 'd, 'c) topic \<Rightarrow> (('i, 'c) RpcSession, 'p, 'd, 'c) topic" where
  "ServerTopicImpl_trigger stringify params suppliedData t =
     (let key = stringify params;
          subscribed = (case subscribedSessions t key of None \<Rightarrow> [] | Some ss \<Rightarrow> ss)
      in fold (ServerTopicImpl_trigger_forEach params suppliedData) subscribed t)"

definition ServerTopicImpl_subscribe ::
  "('p \<Rightarrow> string) \<Rightarrow> 'p \<Rightarrow> ('i, 'c) RpcSession \<Rightarrow> (('i, 'c) RpcSession, 'p, 'd, 'c) topic
     \<Rightarrow> (error + unit) \<times> (('i, 'c) RpcSession, 'p, 'd, 'c) topic" where
  "ServerTopicImpl_subscribe stringify params session t =
     (let key = stringify params;
          sessions = (case subscribedSessions t key of None \<Rightarrow> [] | Some ss \<Rightarrow> ss)
      in if indexOf sessions session \<ge> 0 then (Inr (), t)
         else
           (let t1 = t\<lparr>subscribedSessions := (subscribedSessions t)(key \<mapsto> sessions @ [session])\<rparr>
            in case supplier t1 of
                 None \<Rightarrow> (Inr (), t1)
               | Some f \<Rightarrow>
                   (let t2 = callSupplier params (session_context session) t1 in
                    case f params (session_context session) of
                      Inl e \<Rightarrow> (Inl e, t2)
                    | Inr d \<Rightarrow> (Inr (), send session (Data (name t2) params d) t2))))"

definition ServerTopicImpl_unsubscribe ::
  "('p \<Rightarrow> string) \<Rightarrow> 'p \<Rightarrow> ('i, 'c) RpcSession
     \<Rightarrow> (('i, 'c) RpcSession, 'p, 'd, 'c) topic \<Rightarrow> (('i, 'c) RpcSession, 'p, 'd, 'c) topic" where
  "ServerTopicImpl_unsubscribe stringify params session t =
     (let key = stringify params in
      case subscribedSessions t key of
        None \<Rightarrow> t
      | Some sessions \<Rightarrow>
          (let index = indexOf sessions session;
               sessions' = splice sessions index 1
           in if length sessions' = 0
              then t\<lparr>subscribedSessions := (subscribedSessions t)(key := None)\<rparr>
              else t\<lparr>subscribedSessions := (subscribedSessions t)(key \<mapsto> sessions')\<rparr>))"

text \<open>
  The sessions subscribed under a key, the empty list when the object has no such
  property (\<open>this.subscribedSessions[key] || []\<close>), and the property that no array holds
  a session twice.
\<close>

definition sessionsOf :: "('s, 'p, 'd, 'c) topic \<Rightarrow> string \<Rightarrow> 's list" where
  "sessionsOf t key = (case subscribedSessions t key of None \<Rightarrow> [] | Some ss \<Rightarrow> ss)"

definition sessions_distinct :: "('s, 'p, 'd, 'c) topic \<Rightarrow> bool" where
  "sessions_distinct t = (\<forall>key ss. subscribedSessions t key = Some ss \<longrightarrow> distinct ss)"

text \<open>The calls a server makes on a topic, and a topic driven by a list of them.\<close>

datatype ('s, 'p, 'd) topic_call = Subscribe 's 'p | Unsubscribe 's 'p | Trigger 'p "'d supplied"

fun topic_step ::
  "('p \<Rightarrow> string) \<Rightarrow> ('s \<Rightarrow> 'c) \<Rightarrow> ('s, 'p, 'd) topic_call \<Rightarrow> ('s, 'p, 'd, 'c) topic \<Rightarrow> ('s, 'p, 'd, 'c) topic" where
  "topic_step stringify createContext (Subscribe s p) t =
     snd (LocalTopicImpl_subscribeSession stringify createContext s p t)"
| "topic_step stringify createContext (Unsubscribe s p) t =
     LocalTopicImpl_unsubscribeSession stringify s p t"
| "topic_step stringify createContext (Trigger p d) t =
     LocalTopicImpl_trigger stringify createContext p d t"

text \<open>
  A topic for the examples: the supplier answers the context plus one, and two sessions
  with the contexts 10 and 20 are subscribed under the parameters \<open>{}\<close>.
\<close>

definition todos_topic :: "((nat, nat) RpcSession, string, nat, nat) topic" where
  "todos_topic =
     \<lparr>supplier = Some (\<lambda>p c. Inr (c + 1)), name = ''/todo/todos'',
      subscribedSessions = Map.empty(''{}'' \<mapsto>
        [\<lparr>sessionId = 1, session_context = 10\<rparr>, \<lparr>sessionId = 2, session_context = 20\<rparr>]),
      supplierCalls = [], sent = []\<rparr>"

section \<open>The client's subscription registry\<close>

text \<open>
  \<open>RemoteSubscriptions\<close> is the registry that \<open>RpcClientImpl\<close> owns. A subscription key is
  the pair of the item name and the parameters; the type \<open>'p\<close> stands for parameters in
  their canonical serialisation, so that equal keys are equal pairs. Consumers are
  callbacks compared by reference: \<open>'c\<close> is the identity of a callback, and calling one
  is recorded as a pair (consumer, value). A consumer is opaque: it does not call back
  into the client while it runs.
\<close>

record ('c, 'v) subscription =
  consumers :: "'c list"
  lastValue :: "'v option"

record ('p, 'c, 'v) RemoteSubscriptions =
  subscriptions :: "((string \<times> 'p) \<times> ('c, 'v) subscription) list"
  cache :: "((string \<times> 'p) \<rightharpoonup> 'v) option"

text \<open>
  Modelled from the spec: \<open>getCached\<close> of the class \<open>RemoteSubscriptions\<close>
  (client/RemoteSubscriptions.ts), which is not among the sources; section 4.1 of the
  specification. It returns \<open>lastValue\<close> if present and otherwise consults the optional
  external cache adapter, here a store from keys to values. \<open>None\<close> is the \<open>undefined\<close>
  that \<open>subscribe\<close> tests for. The \<open>pending\<close> flag of the data model, which no operation
  of section 4.1 reads or writes, is left out of the record.
\<close>

definition getCached :: "string \<Rightarrow> 'p \<Rightarrow> ('p, 'c, 'v) RemoteSubscriptions \<Rightarrow> 'v option" where
  "getCached itemName parameters r =
     (let fromCache = (case cache r of None \<Rightarrow> None | Some m \<Rightarrow> m (itemName, parameters)) in
      case map_of (subscriptions r) (itemName, parameters) of
        None \<Rightarrow> fromCache
      | Some s \<Rightarrow> (case lastValue s of Some v \<Rightarrow> Some v | None \<Rightarrow> fromCache))"

text \<open>
  Modelled from the spec: the write-through to the external cache adapter, when one is
  configured (section 4.1, in \<open>subscribe\<close> and \<open>consume\<close>).
\<close>

definition cachePut :: "string \<times> 'p \<Rightarrow> 'v \<Rightarrow> ((string \<times> 'p) \<rightharpoonup> 'v) option \<Rightarrow> ((string \<times> 'p) \<rightharpoonup> 'v) option" where
  "cachePut k v c = (case c of None \<Rightarrow> None | Some m \<Rightarrow> Some (m(k \<mapsto> v)))"

text \<open>
  Modelled from the spec: the consumers of a key (section 3, the subscription record); a
  key without a record has none.
\<close>

definition consumersOf :: "string \<Rightarrow> 'p \<Rightarrow> ('p, 'c, 'v) RemoteSubscriptions \<Rightarrow> 'c list" where
  "consumersOf itemName parameters r =
     (case map_of (subscriptions r) (itemName, parameters) of
        None \<Rightarrow> []
      | Some s \<Rightarrow> consumers s)"

text \<open>
  Modelled from the spec: \<open>RemoteSubscriptions.subscribe\<close>, not among the sources;
  section 4.1. It ensures a record for the key, appends the consumer (the same callback
  twice is two entries), sets \<open>lastValue\<close>, calls the consumer with the initial value and
  writes through to the cache. The calls made to consumers are returned with the
  registry. Records are kept in insertion order.
\<close>

definition RemoteSubscriptions_subscribe ::
  "'v \<Rightarrow> string \<Rightarrow> 'p \<Rightarrow> 'c \<Rightarrow> ('p, 'c, 'v) RemoteSubscriptions
     \<Rightarrow> ('c \<times> 'v) list \<times> ('p, 'c, 'v) RemoteSubscriptions" where
  "RemoteSubscriptions_subscribe initialValue itemName parameters consumer r =
     (let k = (itemName, parameters);
          s = \<lparr>consumers = consumersOf itemName parameters r @ [consumer],
               lastValue = Some initialValue\<rparr>
      in ([(consumer, initialValue)],
          r\<lparr>subscriptions := AList.update k s (subscriptions r),
            cache := cachePut k initialValue (cache r)\<rparr>))"

text \<open>
  Modelled from the spec: \<open>RemoteSubscriptions.unsubscribe\<close>, not among the sources;
  section 4.1. It removes one occurrence of the consumer (the first one; none if the
  consumer is absent), answers whether the record is now empty, and removes an empty
  record. Section 4.1 does not say what the answer is for a key without a record: it
  counts as a record with no consumers, and the answer is \<open>True\<close>.
\<close>

definition RemoteSubscriptions_unsubscribe ::
  "string \<Rightarrow> 'p \<Rightarrow> 'c \<Rightarrow> ('p, 'c, 'v) RemoteSubscriptions
     \<Rightarrow> bool \<times> ('p, 'c, 'v) RemoteSubscriptions" where
  "RemoteSubscriptions_unsubscribe itemName parameters consumer r =
     (let k = (itemName, parameters) in
      case map_of (subscriptions r) k of
        None \<Rightarrow> (True, r)
      | Some s \<Rightarrow>
          (let cs = remove1 consumer (consumers s) in
           if cs = []
           then (True, r\<lparr>subscriptions := AList.delete k (subscriptions r)\<rparr>)
           else (False, r\<lparr>subscriptions := AList.update k (s\<lparr>consumers := cs\<rparr>) (subscriptions r)\<rparr>)))"

text \<open>
  Modelled from the spec: \<open>RemoteSubscriptions.consume\<close>, not among the sources;
  section 4.1. With a record for the key it sets \<open>lastValue\<close>, writes through to the
  cache and calls every consumer in insertion order; without one the data is discarded.
\<close>

definition RemoteSubscriptions_consume ::
  "string \<Rightarrow> 'p \<Rightarrow> 'v \<Rightarrow> ('p, 'c, 'v) RemoteSubscriptions
     \<Rightarrow> ('c \<times> 'v) list \<times> ('p, 'c, 'v) RemoteSubscriptions" where
  "RemoteSubscriptions_consume itemName parameters data r =
     (let k = (itemName, parameters) in
      case map_of (subscriptions r) k of
        None \<Rightarrow> ([], r)
      | Some s \<Rightarrow>
          (map (\<lambda>c. (c, data)) (consumers s),
           r\<lparr>subscriptions := AList.update k (s\<lparr>lastValue := Some data\<rparr>) (subscriptions r),
             cache := cachePut k data (cache r)\<rparr>))"

text \<open>
  Modelled from the spec: \<open>RemoteSubscriptions.getAllSubscriptions\<close>, not among the
  sources; section 4.1. It is a snapshot: the consumers of an entry are those the key
  had when it was taken.
\<close>

definition getAllSubscriptions ::
  "('p, 'c, 'v) RemoteSubscriptions \<Rightarrow> (string \<times> 'p \<times> 'c list) list" where
  "getAllSubscriptions r = map (\<lambda>((itemName, parameters), s). (itemName, parameters, consumers s)) (subscriptions r)"

section \<open>The WebSocket connection\<close>

text \<open>
  Modelled from the spec: the states of the class \<open>WebSocketConnection\<close>
  (client/WebSocketConnection.ts), which is not among the sources; the state machine of
  section 4.3 of the specification, and whether the channel has been open before.
\<close>

datatype phase = Disconnected | Connecting | Open | Backoff | Closed

record WebSocketConnection =
  phase :: phase
  openedBefore :: bool

text \<open>
  Modelled from the spec: \<open>WebSocketConnection.connect\<close> (section 4.3), from
  \<open>Disconnected\<close> to \<open>Connecting\<close>. Whether the attempt succeeds is the socket's event.
\<close>

definition WebSocketConnection_connect :: "WebSocketConnection \<Rightarrow> WebSocketConnection" where
  "WebSocketConnection_connect ws = (if phase ws = Disconnected then ws\<lparr>phase := Connecting\<rparr> else ws)"

text \<open>
  Modelled from the spec: \<open>WebSocketConnection.close\<close> (section 4.3), from any state to
  the terminal \<open>Closed\<close>.
\<close>

definition WebSocketConnection_close :: "WebSocketConnection \<Rightarrow> WebSocketConnection" where
  "WebSocketConnection_close ws = ws\<lparr>phase := Closed\<rparr>"

text \<open>Modelled from the spec: \<open>WebSocketConnection.isConnected\<close>, the state \<open>Open\<close>.\<close>

definition isConnected :: "WebSocketConnection \<Rightarrow> bool" where
  "isConnected ws = (phase ws = Open)"

text \<open>
  Modelled from the spec: the socket opens (section 4.3), from \<open>Connecting\<close> to \<open>Open\<close>;
  the answer is whether \<open>onReconnected\<close> fires, which it does on every open but the first.
\<close>

definition socketOpen :: "WebSocketConnection \<Rightarrow> bool \<times> WebSocketConnection" where
  "socketOpen ws =
     (if phase ws = Connecting
      then (openedBefore ws, ws\<lparr>phase := Open, openedBefore := True\<rparr>)
      else (False, ws))"

text \<open>
  Modelled from the spec: the socket closes or fails (section 4.3), from \<open>Connecting\<close>
  or \<open>Open\<close> to \<open>Backoff\<close>.
\<close>

definition socketError :: "WebSocketConnection \<Rightarrow> WebSocketConnection" where
  "socketError ws = (if phase ws = Connecting \<or> phase ws = Open then ws\<lparr>phase := Backoff\<rparr> else ws)"

text \<open>
  Modelled from the spec: the reconnect timer fires (section 4.3), from \<open>Backoff\<close> to
  \<open>Connecting\<close>.
\<close>

definition backoffTimer :: "WebSocketConnection \<Rightarrow> WebSocketConnection" where
  "backoffTimer ws = (if phase ws = Backoff then ws\<lparr>phase := Connecting\<rparr> else ws)"

section \<open>The client\<close>

text \<open>
  \<open>RpcClientImpl\<close> (src/unnamed/part_000). Its state is the registry, the connection and
  the option \<open>options.subscribe\<close>; two traces record what it does to its surroundings:
  the requests it hands to \<open>HttpClient\<close> and the calls it makes to consumers, both in
  order. \<open>HttpClient\<close> is not among the sources: a request is an entry of the trace, and
  the settled promise of a request is an argument of the code that awaits it.
\<close>

datatype 'p request = HttpCall string 'p | HttpSubscribe string 'p | HttpUnsubscribe string 'p

record ('p, 'c, 'v) RpcClientImpl =
  options_subscribe :: bool
  remoteSubscriptions :: "('p, 'c, 'v) RemoteSubscriptions"
  connection :: WebSocketConnection
  httpRequests :: "'p request list"
  invoked :: "('c \<times> 'v) list"

text \<open>Calling consumers, and handing a request to \<open>HttpClient\<close>: entries of the traces.\<close>

definition callConsumers :: "('c \<times> 'v) list \<Rightarrow> ('p, 'c, 'v) RpcClientImpl \<Rightarrow> ('p, 'c, 'v) RpcClientImpl" where
  "callConsumers calls st = st\<lparr>invoked := invoked st @ calls\<rparr>"

definition httpRequest :: "'p request \<Rightarrow> ('p, 'c, 'v) RpcClientImpl \<Rightarrow> ('p, 'c, 'v) RpcClientImpl" where
  "httpRequest rq st = st\<lparr>httpRequests := httpRequests st @ [rq]\<rparr>"

text \<open>The callback the constructor gives the connection for inbound data frames.\<close>

definition onData :: "string \<Rightarrow> 'p \<Rightarrow> 'v \<Rightarrow> ('p, 'c, 'v) RpcClientImpl \<Rightarrow> ('p, 'c, 'v) RpcClientImpl" where
  "onData itemName parameters data st =
     (let (calls, r) = RemoteSubscriptions_consume itemName parameters data (remoteSubscriptions st)
      in callConsumers calls (st\<lparr>remoteSubscriptions := r\<rparr>))"

definition close :: "('p, 'c, 'v) RpcClientImpl \<Rightarrow> ('p, 'c, 'v) RpcClientImpl" where
  "close st = st\<lparr>connection := WebSocketConnection_close (connection st)\<rparr>"

text \<open>
  \<open>subscribe\<close> is an async function with one \<open>await\<close>. \<open>subscribe_start\<close> is what runs
  synchronously in the call, up to the \<open>await\<close> of \<open>httpClient.subscribe\<close>: the cached
  value goes to the consumer, \<open>connect()\<close> is started when \<open>options.subscribe\<close> is set (its
  promise gets the handler \<open>catch((e) => {})\<close> and is not awaited), and the request is
  made. \<open>subscribe_resume\<close> is what runs when the awaited promise has settled, in the state
  the client has by then: a rejection rejects the promise of \<open>subscribe\<close>, a value goes
  to \<open>remoteSubscriptions.subscribe\<close>. \<open>subscribe\<close> is the two with nothing in between.
\<close>

definition subscribe_start ::
  "string \<Rightarrow> 'p \<Rightarrow> 'c \<Rightarrow> ('p, 'c, 'v) RpcClientImpl \<Rightarrow> ('p, 'c, 'v) RpcClientImpl" where
  "subscribe_start itemName parameters consumer st =
     (let cached = getCached itemName parameters (remoteSubscriptions st);
          st1 = (case cached of None \<Rightarrow> st | Some v \<Rightarrow> callConsumers [(consumer, v)] st);
          st2 = (if options_subscribe st1
                 then st1\<lparr>connection := WebSocketConnection_connect (connection st1)\<rparr>
                 else st1)
      in httpRequest (HttpSubscribe itemName parameters) st2)"

definition subscribe_resume ::
  "string \<Rightarrow> 'p \<Rightarrow> 'c \<Rightarrow> error + 'v \<Rightarrow> ('p, 'c, 'v) RpcClientImpl
     \<Rightarrow> (error + unit) \<times> ('p, 'c, 'v) RpcClientImpl" where
  "subscribe_resume itemName parameters consumer response st =
     (case response of
        Inl e \<Rightarrow> (Inl e, st)
      | Inr data \<Rightarrow>
          (let (calls, r) = RemoteSubscriptions_subscribe data itemName parameters consumer
                              (remoteSubscriptions st)
           in (Inr (), callConsumers calls (st\<lparr>remoteSubscriptions := r\<rparr>))))"

definition subscribe ::
  "string \<Rightarrow> 'p \<Rightarrow> 'c \<Rightarrow> error + 'v \<Rightarrow> ('p, 'c, 'v) RpcClientImpl
     \<Rightarrow> (error + unit) \<times> ('p, 'c, 'v) RpcClientImpl" where
  "subscribe itemName parameters consumer response st =
     subscribe_resume itemName parameters consumer response
       (subscribe_start itemName parameters consumer st)"

text \<open>
  \<open>unsubscribe\<close>: the registry is updated first; the request is made, and its promise
  awaited, only when the registry answered \<open>noSubscriptionsLeft\<close>. Nothing runs after the
  \<open>await\<close>, and there is no \<open>try\<close> around it, so the settled promise of the request is
  the outcome.
\<close>

definition unsubscribe ::
  "string \<Rightarrow> 'p \<Rightarrow> 'c \<Rightarrow> error + unit \<Rightarrow> ('p, 'c, 'v) RpcClientImpl
     \<Rightarrow> (error + unit) \<times> ('p, 'c, 'v) RpcClientImpl" where
  "unsubscribe itemName parameters consumer response st =
     (let (noSubscriptionsLeft, r) =
            RemoteSubscriptions_unsubscribe itemName parameters consumer (remoteSubscriptions st);
          st1 = st\<lparr>remoteSubscriptions := r\<rparr>
      in if noSubscriptionsLeft
         then (response, httpRequest (HttpUnsubscribe itemName parameters) st1)
         else (Inr (), st1))"

text \<open>
  \<open>resubscribe\<close> makes one request for every entry of \<open>getAllSubscriptions()\<close> and returns;
  each request's promise keeps the entry (item name, parameters, consumers) in its
  handlers. \<open>resubscribe_settled\<close> is the handler pair \<open>then\<close>/\<open>catch\<close> of one entry, run when
  that promise has settled.
\<close>

definition resubscribe ::
  "('p, 'c, 'v) RpcClientImpl \<Rightarrow> (string \<times> 'p \<times> 'c list) list \<times> ('p, 'c, 'v) RpcClientImpl" where
  "resubscribe st =
     (let entries = getAllSubscriptions (remoteSubscriptions st)
      in (entries,
          fold (\<lambda>(itemName, params, cs). httpRequest (HttpSubscribe itemName params)) entries st))"

definition resubscribe_settled ::
  "string \<times> 'p \<times> 'c list \<Rightarrow> error + 'v \<Rightarrow> ('p, 'c, 'v) RpcClientImpl \<Rightarrow> ('p, 'c, 'v) RpcClientImpl" where
  "resubscribe_settled entry response st =
     (case entry of (itemName, params, cs) \<Rightarrow>
        (case response of
           Inr data \<Rightarrow>
             (let (calls, r) = RemoteSubscriptions_consume itemName params data (remoteSubscriptions st)
              in callConsumers calls (st\<lparr>remoteSubscriptions := r\<rparr>))
         | Inl e \<Rightarrow>
             st\<lparr>remoteSubscriptions :=
                  fold (\<lambda>consumer r. snd (RemoteSubscriptions_unsubscribe itemName params consumer r))
                    cs (remoteSubscriptions st)\<rparr>))"

text \<open>
  Everything that can happen to a client, one event at a time: the calls of its users,
  the promises of its requests settling, and the socket's events. A run is a list of
  events.
\<close>

datatype ('p, 'c, 'v) event =
    SubscribeCalled string 'p 'c
  | SubscribeSettled string 'p 'c "error + 'v"
  | UnsubscribeCalled string 'p 'c "error + unit"
  | ResubscribeSettled "string \<times> 'p \<times> 'c list" "error + 'v"
  | DataFrame string 'p 'v
  | SocketOpened
  | SocketFailed error
  | BackoffElapsed
  | CloseCalled

fun step :: "('p, 'c, 'v) event \<Rightarrow> ('p, 'c, 'v) RpcClientImpl \<Rightarrow> ('p, 'c, 'v) RpcClientImpl" where
  "step (SubscribeCalled i p c) st = subscribe_start i p c st"
| "step (SubscribeSettled i p c response) st = snd (subscribe_resume i p c response st)"
| "step (UnsubscribeCalled i p c response) st = snd (unsubscribe i p c response st)"
| "step (ResubscribeSettled entry response) st = resubscribe_settled entry response st"
| "step (DataFrame i p d) st = onData i p d st"
| "step SocketOpened st =
     (let (reconnected, ws) = socketOpen (connection st);
          st1 = st\<lparr>connection := ws\<rparr>
      in if reconnected then snd (resubscribe st1) else st1)"
| "step (SocketFailed e) st = st\<lparr>connection := socketError (connection st)\<rparr>"
| "step BackoffElapsed st = st\<lparr>connection := backoffTimer (connection st)\<rparr>"
| "step CloseCalled st = close st"

definition run :: "('p, 'c, 'v) event list \<Rightarrow> ('p, 'c, 'v) RpcClientImpl \<Rightarrow> ('p, 'c, 'v) RpcClientImpl" where
  "run evs st = fold step evs st"

text \<open>The keys of the registry's records are distinct.\<close>

definition keys_distinct :: "('p, 'c, 'v) RpcClientImpl \<Rightarrow> bool" where
  "keys_distinct st = distinct (map fst (subscriptions (remoteSubscriptions st)))"

text \<open>
  A client for the examples: push delivery is enabled, the socket is disconnected, the
  consumers 11 and 12 are subscribed to \<open>test/item\<close> with the last value 5, and the
  consumer 13 to \<open>item\<close> with the last value 7.
\<close>

definition test_client :: "(string, nat, nat) RpcClientImpl" where
  "test_client =
     \<lparr>options_subscribe = True,
      remoteSubscriptions =
        \<lparr>subscriptions =
           [((''test/item'', ''[]''), \<lparr>consumers = [11, 12], lastValue = Some 5\<rparr>),
            ((''item'', ''[]''), \<lparr>consumers = [13], lastValue = Some 7\<rparr>)],
         cache = None\<rparr>,
      connection = \<lparr>phase = Disconnected, openedBefore = False\<rparr>,
      httpRequests = [], invoked = []\<rparr>"

section \<open>Facts about the array methods\<close>

lemma indexOf_ge_minus_one: "- 1 \<le> indexOf xs x"
  by (induction xs) (auto simp: Let_def)

lemma indexOf_absent: "x \<notin> set xs \<Longrightarrow> indexOf xs x = - 1"
  by (induction xs) (auto simp: Let_def)

lemma indexOf_present: "x \<in> set xs \<Longrightarrow> 0 \<le> indexOf xs x"
  by (induction xs) (auto simp: Let_def)

lemma indexOf_nonneg_iff: "0 \<le> indexOf xs x \<longleftrightarrow> x \<in> set xs"
  using indexOf_absent [of x xs] indexOf_present [of x xs] by fastforce

lemma splice_minus_one: "splice xs (- 1) 1 = butlast xs"
proof (cases "xs = []")
  case True
  then show ?thesis by (simp add: splice_def)
next
  case False
  then have len: "0 < length xs" by simp
  then have start: "nat (max (int (length xs) + - 1) 0) = length xs - 1" by simp
  have "splice xs (- 1) 1 = take (length xs - 1) xs @ drop (length xs - 1 + min 1 (length xs - (length xs - 1))) xs"
    unfolding splice_def Let_def using start by simp
  also have "\<dots> = take (length xs - 1) xs"
    using len by simp
  finally show ?thesis by (simp add: butlast_conv_take)
qed

section \<open>Facts about the topics\<close>

lemma ServerTopicImpl_trigger_forEach_eq:
  "ServerTopicImpl_trigger_forEach params suppliedData session t = trigger_forEach session_context params suppliedData session t"
  by (simp add: ServerTopicImpl_trigger_forEach_def trigger_forEach_def)

lemma ServerTopicImpl_trigger_eq:
  "ServerTopicImpl_trigger stringify params suppliedData t = LocalTopicImpl_trigger stringify session_context params suppliedData t"
  unfolding ServerTopicImpl_trigger_def LocalTopicImpl_trigger_def
  by (simp add: ServerTopicImpl_trigger_forEach_eq [abs_def])

lemma ServerTopicImpl_subscribe_eq:
  "ServerTopicImpl_subscribe stringify params session t = LocalTopicImpl_subscribeSession stringify session_context session params t"
  by (simp add: ServerTopicImpl_subscribe_def LocalTopicImpl_subscribeSession_def)

lemma ServerTopicImpl_unsubscribe_eq:
  "ServerTopicImpl_unsubscribe stringify params session t = LocalTopicImpl_unsubscribeSession stringify session params t"
  by (simp add: ServerTopicImpl_unsubscribe_def LocalTopicImpl_unsubscribeSession_def)

lemma unsubscribeSession_absent:
  assumes "subscribedSessions t (stringify params) = Some sessions" and "session \<notin> set sessions"
  shows "LocalTopicImpl_unsubscribeSession stringify session params t =
           t\<lparr>subscribedSessions := (subscribedSessions t)
               (stringify params := (if butlast sessions = [] then None else Some (butlast sessions)))\<rparr>"
  using assms
  by (simp add: LocalTopicImpl_unsubscribeSession_def Let_def indexOf_absent splice_minus_one [simplified])

lemma fold_trigger_Defined:
  "fold (trigger_forEach createContext params (Defined d)) ss t =
     t\<lparr>sent := sent t @ map (\<lambda>s. (s, Data (name t) params d)) ss\<rparr>"
  by (induction ss arbitrary: t) (simp_all add: trigger_forEach_def send_def)

lemma fold_trigger_supplier:
  assumes "supplier t = Some f" and "suppliedData = Undefined \<or> suppliedData = Null" and "name t = nm"
  shows "fold (trigger_forEach createContext params suppliedData) ss t =
     t\<lparr>supplierCalls := supplierCalls t @ map (\<lambda>s. (params, createContext s)) ss,
       sent := sent t @ concat (map (\<lambda>s. case f params (createContext s) of
                                       Inl e \<Rightarrow> []
                                     | Inr d \<Rightarrow> [(s, Data nm params d)]) ss)\<rparr>"
  using assms
  by (induction ss arbitrary: t)
     (auto simp: trigger_forEach_def send_def callSupplier_def split: sum.splits)

lemma distinct_splice: "distinct xs \<Longrightarrow> distinct (splice xs i n)"
  by (auto simp: splice_def Let_def set_take_disj_set_drop_if_distinct)

lemma subscribeSession_sessions:
  "subscribedSessions (snd (LocalTopicImpl_subscribeSession stringify createContext session params t)) =
     (if session \<in> set (sessionsOf t (stringify params)) then subscribedSessions t
      else (subscribedSessions t)(stringify params \<mapsto> sessionsOf t (stringify params) @ [session]))"
  by (auto simp: LocalTopicImpl_subscribeSession_def Let_def sessionsOf_def indexOf_nonneg_iff
        callSupplier_def send_def split: option.splits sum.splits)

lemma subscribeSession_again:
  assumes "session \<in> set (sessionsOf t (stringify params))"
  shows "LocalTopicImpl_subscribeSession stringify createContext session params t = (Inr (), t)"
  using assms
  by (simp add: LocalTopicImpl_subscribeSession_def Let_def sessionsOf_def indexOf_nonneg_iff)

lemma subscribeSession_member:
  "session \<in> set (sessionsOf (snd (LocalTopicImpl_subscribeSession stringify createContext session params t)) (stringify params))"
  by (simp add: sessionsOf_def subscribeSession_sessions)

lemma fold_trigger_sessions:
  "subscribedSessions (fold (trigger_forEach createContext params suppliedData) ss t) = subscribedSessions t"
  by (induction ss arbitrary: t)
     (auto simp: trigger_forEach_def send_def callSupplier_def Let_def split: supplied.splits option.splits sum.splits)

lemma trigger_sessions:
  "subscribedSessions (LocalTopicImpl_trigger stringify createContext params suppliedData t) = subscribedSessions t"
  by (simp add: LocalTopicImpl_trigger_def Let_def fold_trigger_sessions)

lemma topic_step_distinct:
  assumes "sessions_distinct t"
  shows "sessions_distinct (topic_step stringify createContext call t)"
proof (cases call)
  case (Subscribe s p)
  then show ?thesis using assms
    by (auto simp: sessions_distinct_def subscribeSession_sessions sessionsOf_def split: if_splits option.splits)
next
  case (Unsubscribe s p)
  then show ?thesis using assms
    by (auto simp: sessions_distinct_def LocalTopicImpl_unsubscribeSession_def Let_def distinct_splice
          split: if_splits option.splits)
next
  case (Trigger p d)
  then show ?thesis using assms by (simp add: sessions_distinct_def trigger_sessions)
qed

lemma topic_run_distinct:
  "sessions_distinct t \<Longrightarrow> sessions_distinct (fold (topic_step stringify createContext) calls t)"
  by (induction calls arbitrary: t) (simp_all add: topic_step_distinct)

lemma count_list_distinct: "distinct xs \<Longrightarrow> x \<in> set xs \<Longrightarrow> count_list xs x = 1"
  by (induction xs) auto

section \<open>Duplicate subscribes on the server\<close>

text \<open>
  Claim C8. Subscribing a session to a key it is already subscribed to changes nothing:
  the second call of \<open>subscribeSession\<close> (and of \<open>ServerTopicImpl.subscribe\<close>) returns at
  the guard \<open>sessions.indexOf(session) >= 0\<close>, so the topic after the duplicate subscribe
  is the topic after the first one, session lists included. Where no list holds a
  session twice before the call, none does after it, and the subscribed session is in
  the list of its key exactly once.
\<close>

theorem duplicate_subscribe_idempotent:
  fixes t :: "(('i, 'c) RpcSession, 'p, 'd, 'c) topic"
  shows "LocalTopicImpl_subscribeSession stringify createContext session params
           (snd (LocalTopicImpl_subscribeSession stringify createContext session params t))
         = (Inr (), snd (LocalTopicImpl_subscribeSession stringify createContext session params t))
       \<and> ServerTopicImpl_subscribe stringify params session
           (snd (ServerTopicImpl_subscribe stringify params session t))
         = (Inr (), snd (ServerTopicImpl_subscribe stringify params session t))
       \<and> (sessions_distinct t \<longrightarrow>
            sessions_distinct (snd (LocalTopicImpl_subscribeSession stringify createContext session params t))
          \<and> count_list (sessionsOf (snd (LocalTopicImpl_subscribeSession stringify createContext session params t))
               (stringify params)) session = 1
          \<and> sessions_distinct (snd (ServerTopicImpl_subscribe stringify params session t))
          \<and> count_list (sessionsOf (snd (ServerTopicImpl_subscribe stringify params session t))
               (stringify params)) session = 1)"
proof -
  have again: "LocalTopicImpl_subscribeSession stringify cc session params
           (snd (LocalTopicImpl_subscribeSession stringify cc session params t))
         = (Inr (), snd (LocalTopicImpl_subscribeSession stringify cc session params t))" for cc
    by (rule subscribeSession_again) (rule subscribeSession_member)
  have once: "sessions_distinct (snd (LocalTopicImpl_subscribeSession stringify cc session params t))
      \<and> count_list (sessionsOf (snd (LocalTopicImpl_subscribeSession stringify cc session params t))
               (stringify params)) session = 1" if "sessions_distinct t" for cc
  proof -
    let ?t' = "snd (LocalTopicImpl_subscribeSession stringify cc session params t)"
    have d: "sessions_distinct ?t'"
      using topic_step_distinct [OF that, of stringify cc "Subscribe session params"] by simp
    have "distinct (sessionsOf ?t' (stringify params))"
      using d by (auto simp: sessions_distinct_def sessionsOf_def split: option.splits)
    moreover have "session \<in> set (sessionsOf ?t' (stringify params))"
      by (rule subscribeSession_member)
    ultimately have "count_list (sessionsOf ?t' (stringify params)) session = 1"
      by (rule count_list_distinct)
    with d show ?thesis by simp
  qed
  show ?thesis
    using again [of createContext] again [of session_context] once [of createContext] once [of session_context]
    by (simp add: ServerTopicImpl_subscribe_eq)
qed

text \<open>
  A third session subscribes twice to the example topic: the list is the two old sessions
  and the new one, once.
\<close>

theorem duplicate_subscribe_idempotent_witness:
  "sessions_distinct todos_topic
   \<and> sessionsOf (snd (ServerTopicImpl_subscribe (\<lambda>p. p) ''{}'' \<lparr>sessionId = 3, session_context = 30\<rparr> todos_topic)) ''{}''
       = [\<lparr>sessionId = 1, session_context = 10\<rparr>, \<lparr>sessionId = 2, session_context = 20\<rparr>,
          \<lparr>sessionId = 3, session_context = 30\<rparr>]
   \<and> ServerTopicImpl_subscribe (\<lambda>p. p) ''{}'' \<lparr>sessionId = 3, session_context = 30\<rparr>
       (snd (ServerTopicImpl_subscribe (\<lambda>p. p) ''{}'' \<lparr>sessionId = 3, session_context = 30\<rparr> todos_topic))
     = (Inr (), snd (ServerTopicImpl_subscribe (\<lambda>p. p) ''{}'' \<lparr>sessionId = 3, session_context = 30\<rparr> todos_topic))
   \<and> count_list (sessionsOf (snd (ServerTopicImpl_subscribe (\<lambda>p. p) ''{}''
         \<lparr>sessionId = 3, session_context = 30\<rparr> todos_topic)) ''{}'') \<lparr>sessionId = 3, session_context = 30\<rparr> = 1"
proof -
  have d: "sessions_distinct todos_topic"
    by (auto simp: sessions_distinct_def todos_topic_def split: if_splits)
  have first: "sessionsOf (snd (ServerTopicImpl_subscribe (\<lambda>p. p) ''{}'' \<lparr>sessionId = 3, session_context = 30\<rparr> todos_topic)) ''{}''
       = [\<lparr>sessionId = 1, session_context = 10\<rparr>, \<lparr>sessionId = 2, session_context = 20\<rparr>,
          \<lparr>sessionId = 3, session_context = 30\<rparr>]"
    by (simp add: ServerTopicImpl_subscribe_def todos_topic_def sessionsOf_def Let_def callSupplier_def send_def)
  note inst = duplicate_subscribe_idempotent [where t = todos_topic and stringify = "\<lambda>p. p" and params = "''{}''"
        and session = "\<lparr>sessionId = 3, session_context = 30\<rparr>" and createContext = session_context]
  from inst have second: "ServerTopicImpl_subscribe (\<lambda>p. p) ''{}'' \<lparr>sessionId = 3, session_context = 30\<rparr>
       (snd (ServerTopicImpl_subscribe (\<lambda>p. p) ''{}'' \<lparr>sessionId = 3, session_context = 30\<rparr> todos_topic))
     = (Inr (), snd (ServerTopicImpl_subscribe (\<lambda>p. p) ''{}'' \<lparr>sessionId = 3, session_context = 30\<rparr> todos_topic))"
    by blast
  from inst d have once: "count_list (sessionsOf (snd (ServerTopicImpl_subscribe (\<lambda>p. p) ''{}''
         \<lparr>sessionId = 3, session_context = 30\<rparr> todos_topic)) ''{}'') \<lparr>sessionId = 3, session_context = 30\<rparr> = 1"
    by blast
  from d first second once show ?thesis by blast
qed

section \<open>Unsubscribing a session that is not subscribed\<close>

text \<open>
  Claim C9. When a key has at least one subscribed session and \<open>unsubscribeSession\<close> (or
  \<open>ServerTopicImpl.unsubscribe\<close>) is called with a session that is not in the list of
  that key, \<open>indexOf\<close> answers \<open>-1\<close>, \<open>splice(-1, 1)\<close> removes the last element of the
  list, which is the session subscribed most recently, and a list that became empty is
  deleted. The call is not a no-op: the topic afterwards differs from the topic before.
\<close>

theorem unsubscribe_absent_session_removes_last:
  fixes t :: "(('i, 'c) RpcSession, 'p, 'd, 'c) topic"
  assumes "subscribedSessions t (stringify params) = Some sessions"
    and "sessions \<noteq> []"
    and "session \<notin> set sessions"
  shows "LocalTopicImpl_unsubscribeSession stringify session params t =
           t\<lparr>subscribedSessions := (subscribedSessions t)
               (stringify params := (if butlast sessions = [] then None else Some (butlast sessions)))\<rparr>
       \<and> ServerTopicImpl_unsubscribe stringify params session t =
           t\<lparr>subscribedSessions := (subscribedSessions t)
               (stringify params := (if butlast sessions = [] then None else Some (butlast sessions)))\<rparr>
       \<and> LocalTopicImpl_unsubscribeSession stringify session params t \<noteq> t
       \<and> ServerTopicImpl_unsubscribe stringify params session t \<noteq> t"
proof -
  let ?t' = "t\<lparr>subscribedSessions := (subscribedSessions t)
               (stringify params := (if butlast sessions = [] then None else Some (butlast sessions)))\<rparr>"
  have eq: "LocalTopicImpl_unsubscribeSession stringify session params t = ?t'"
    using assms(1,3) by (rule unsubscribeSession_absent)
  have "butlast sessions \<noteq> sessions"
    using assms(2) by (metis length_butlast diff_less length_greater_0_conv less_irrefl zero_less_one)
  then have "subscribedSessions ?t' (stringify params) \<noteq> subscribedSessions t (stringify params)"
    using assms(1) by simp
  then have "?t' \<noteq> t" by (metis (no_types))
  with eq show ?thesis by (simp add: ServerTopicImpl_unsubscribe_eq)
qed

text \<open>
  Session 3 is not subscribed to the example topic; unsubscribing it removes session 2.
\<close>

theorem unsubscribe_absent_session_removes_last_witness:
  "subscribedSessions todos_topic ''{}''
     = Some [\<lparr>sessionId = 1, session_context = 10\<rparr>, \<lparr>sessionId = 2, session_context = 20\<rparr>]
   \<and> \<lparr>sessionId = 3, session_context = 30\<rparr>
       \<notin> set [\<lparr>sessionId = 1, session_context = 10\<rparr>, \<lparr>sessionId = 2, session_context = (20::nat)\<rparr>]
   \<and> subscribedSessions
        (ServerTopicImpl_unsubscribe (\<lambda>p. p) ''{}'' \<lparr>sessionId = 3, session_context = 30\<rparr> todos_topic) ''{}''
     = Some [\<lparr>sessionId = 1, session_context = 10\<rparr>]"
proof -
  have a: "subscribedSessions todos_topic ''{}''
     = Some [\<lparr>sessionId = 1, session_context = 10\<rparr>, \<lparr>sessionId = 2, session_context = 20\<rparr>]"
    by (simp add: todos_topic_def)
  have b: "[\<lparr>sessionId = 1, session_context = 10\<rparr>, \<lparr>sessionId = 2, session_context = (20::nat)\<rparr>] \<noteq> []"
    by simp
  have c: "\<lparr>sessionId = 3, session_context = 30\<rparr>
       \<notin> set [\<lparr>sessionId = 1, session_context = 10\<rparr>, \<lparr>sessionId = 2, session_context = (20::nat)\<rparr>]"
    by simp
  from a b c unsubscribe_absent_session_removes_last [where t = todos_topic and stringify = "\<lambda>p. p"
      and params = "''{}''" and session = "\<lparr>sessionId = 3, session_context = 30\<rparr>"
      and sessions = "[\<lparr>sessionId = 1, session_context = 10\<rparr>, \<lparr>sessionId = 2, session_context = 20\<rparr>]"]
  have "ServerTopicImpl_unsubscribe (\<lambda>p. p) ''{}'' \<lparr>sessionId = 3, session_context = 30\<rparr> todos_topic
     = todos_topic\<lparr>subscribedSessions := (subscribedSessions todos_topic)
               (''{}'' := Some [\<lparr>sessionId = 1, session_context = 10\<rparr>])\<rparr>"
    by simp
  then have "subscribedSessions
        (ServerTopicImpl_unsubscribe (\<lambda>p. p) ''{}'' \<lparr>sessionId = 3, session_context = 30\<rparr> todos_topic) ''{}''
     = Some [\<lparr>sessionId = 1, session_context = 10\<rparr>]"
    by simp
  with a c show ?thesis by simp
qed

section \<open>Trigger\<close>

text \<open>
  Claim C10. A trigger without supplied data (\<open>undefined\<close>, or \<open>null\<close>, which the loose
  comparison \<open>!= undefined\<close> treats alike) calls the supplier once for every session
  subscribed under the key, in the order of the list and each time with the context of
  that session, and every session whose supplier call resolves is sent that call's result
  as a \<open>Data\<close> frame. A trigger with supplied data does not call the supplier, and every
  subscribed session is sent the same supplied value.
\<close>

theorem trigger_supplier_once_per_session:
  fixes t :: "(('i, 'c) RpcSession, 'p, 'd, 'c) topic"
  assumes "supplier t = Some f"
    and "suppliedData = Undefined \<or> suppliedData = Null"
  shows "LocalTopicImpl_trigger stringify createContext params suppliedData t =
           t\<lparr>supplierCalls := supplierCalls t
                @ map (\<lambda>s. (params, createContext s)) (sessionsOf t (stringify params)),
             sent := sent t
                @ concat (map (\<lambda>s. case f params (createContext s) of
                                      Inl e \<Rightarrow> []
                                    | Inr d \<Rightarrow> [(s, Data (name t) params d)])
                           (sessionsOf t (stringify params)))\<rparr>
       \<and> ServerTopicImpl_trigger stringify params suppliedData t =
           t\<lparr>supplierCalls := supplierCalls t
                @ map (\<lambda>s. (params, session_context s)) (sessionsOf t (stringify params)),
             sent := sent t
                @ concat (map (\<lambda>s. case f params (session_context s) of
                                      Inl e \<Rightarrow> []
                                    | Inr d \<Rightarrow> [(s, Data (name t) params d)])
                           (sessionsOf t (stringify params)))\<rparr>
       \<and> LocalTopicImpl_trigger stringify createContext params (Defined d) t =
           t\<lparr>sent := sent t @ map (\<lambda>s. (s, Data (name t) params d)) (sessionsOf t (stringify params))\<rparr>
       \<and> ServerTopicImpl_trigger stringify params (Defined d) t =
           t\<lparr>sent := sent t @ map (\<lambda>s. (s, Data (name t) params d)) (sessionsOf t (stringify params))\<rparr>"
proof -
  have subscribed: "(case subscribedSessions t (stringify params) of None \<Rightarrow> [] | Some ss \<Rightarrow> ss)
      = sessionsOf t (stringify params)"
    by (simp add: sessionsOf_def)
  have supplied: "LocalTopicImpl_trigger stringify cc params suppliedData t =
           t\<lparr>supplierCalls := supplierCalls t
                @ map (\<lambda>s. (params, cc s)) (sessionsOf t (stringify params)),
             sent := sent t
                @ concat (map (\<lambda>s. case f params (cc s) of
                                      Inl e \<Rightarrow> []
                                    | Inr d \<Rightarrow> [(s, Data (name t) params d)])
                           (sessionsOf t (stringify params)))\<rparr>" for cc
    unfolding LocalTopicImpl_trigger_def Let_def subscribed
    using fold_trigger_supplier [OF assms refl, of cc params "sessionsOf t (stringify params)"]
    by simp
  have given: "LocalTopicImpl_trigger stringify cc params (Defined d) t =
           t\<lparr>sent := sent t @ map (\<lambda>s. (s, Data (name t) params d)) (sessionsOf t (stringify params))\<rparr>" for cc
    unfolding LocalTopicImpl_trigger_def Let_def subscribed
    by (rule fold_trigger_Defined)
  show ?thesis
    using supplied [of createContext] supplied [of session_context]
      given [of createContext] given [of session_context]
    by (simp add: ServerTopicImpl_trigger_eq)
qed

text \<open>
  The example topic: the two sessions have the contexts 10 and 20 and are sent 11 and 21;
  with the supplied value 7 both are sent 7 and the supplier is not called.
\<close>

theorem trigger_supplier_once_per_session_witness:
  "supplier todos_topic = Some (\<lambda>p c. Inr (c + 1))
   \<and> supplierCalls (ServerTopicImpl_trigger (\<lambda>p. p) ''{}'' Undefined todos_topic)
       = [(''{}'', 10), (''{}'', 20)]
   \<and> sent (ServerTopicImpl_trigger (\<lambda>p. p) ''{}'' Undefined todos_topic)
       = [(\<lparr>sessionId = 1, session_context = 10\<rparr>, Data ''/todo/todos'' ''{}'' 11),
          (\<lparr>sessionId = 2, session_context = 20\<rparr>, Data ''/todo/todos'' ''{}'' 21)]
   \<and> supplierCalls (ServerTopicImpl_trigger (\<lambda>p. p) ''{}'' (Defined 7) todos_topic) = []
   \<and> sent (ServerTopicImpl_trigger (\<lambda>p. p) ''{}'' (Defined 7) todos_topic)
       = [(\<lparr>sessionId = 1, session_context = 10\<rparr>, Data ''/todo/todos'' ''{}'' 7),
          (\<lparr>sessionId = 2, session_context = 20\<rparr>, Data ''/todo/todos'' ''{}'' 7)]"
proof -
  have a: "supplier todos_topic = Some (\<lambda>p c. Inr (c + 1))"
    by (simp add: todos_topic_def)
  have b: "(Undefined :: nat supplied) = Undefined \<or> (Undefined :: nat supplied) = Null"
    by simp
  have ss: "sessionsOf todos_topic ''{}''
     = [\<lparr>sessionId = 1, session_context = 10\<rparr>, \<lparr>sessionId = 2, session_context = 20\<rparr>]"
    by (simp add: sessionsOf_def todos_topic_def)
  have nm: "name todos_topic = ''/todo/todos''" "supplierCalls todos_topic = []" "sent todos_topic = []"
    by (simp_all add: todos_topic_def)
  note inst = trigger_supplier_once_per_session [OF a b, where stringify = "\<lambda>p. p" and params = "''{}''"
      and d = 7 and createContext = session_context]
  from inst have u: "ServerTopicImpl_trigger (\<lambda>p. p) ''{}'' Undefined todos_topic =
           todos_topic\<lparr>supplierCalls := [(''{}'', 10), (''{}'', 20)],
             sent := [(\<lparr>sessionId = 1, session_context = 10\<rparr>, Data ''/todo/todos'' ''{}'' 11),
                      (\<lparr>sessionId = 2, session_context = 20\<rparr>, Data ''/todo/todos'' ''{}'' 21)]\<rparr>"
    by (simp add: ss nm)
  from inst have g: "ServerTopicImpl_trigger (\<lambda>p. p) ''{}'' (Defined 7) todos_topic =
           todos_topic\<lparr>sent := [(\<lparr>sessionId = 1, session_context = 10\<rparr>, Data ''/todo/todos'' ''{}'' 7),
          (\<lparr>sessionId = 2, session_context = 20\<rparr>, Data ''/todo/todos'' ''{}'' 7)]\<rparr>"
    by (simp add: ss nm)
  show ?thesis
    by (simp add: a u g nm)
qed

section \<open>Facts about the client\<close>

lemma fold_httpRequest:
  "fold (\<lambda>(itemName, params, cs). httpRequest (HttpSubscribe itemName params)) entries st =
     st\<lparr>httpRequests := httpRequests st @ map (\<lambda>(itemName, params, cs). HttpSubscribe itemName params) entries\<rparr>"
  by (induction entries arbitrary: st) (auto simp: httpRequest_def)

lemma resubscribe_state:
  "snd (resubscribe st) =
     st\<lparr>httpRequests := httpRequests st
          @ map (\<lambda>(itemName, params, cs). HttpSubscribe itemName params)
              (getAllSubscriptions (remoteSubscriptions st))\<rparr>"
  by (simp add: resubscribe_def Let_def fold_httpRequest)

lemma subscribe_start_registry:
  "remoteSubscriptions (subscribe_start itemName parameters consumer st) = remoteSubscriptions st"
  by (simp add: subscribe_start_def Let_def callConsumers_def httpRequest_def split: option.splits)

lemma subscribe_start_invoked:
  "invoked (subscribe_start itemName parameters consumer st) =
     invoked st @ (case getCached itemName parameters (remoteSubscriptions st) of
                     None \<Rightarrow> [] | Some v \<Rightarrow> [(consumer, v)])"
  by (simp add: subscribe_start_def Let_def callConsumers_def httpRequest_def split: option.splits)

lemma subscribe_resume_invoked:
  "invoked (snd (subscribe_resume itemName parameters consumer response st)) =
     invoked st @ (case response of Inl e \<Rightarrow> [] | Inr data \<Rightarrow> [(consumer, data)])"
  by (simp add: subscribe_resume_def RemoteSubscriptions_subscribe_def Let_def callConsumers_def split: sum.splits)

lemma unsubscribe_invoked:
  "invoked (snd (unsubscribe itemName parameters consumer response st)) = invoked st"
  by (simp add: unsubscribe_def Let_def httpRequest_def split: prod.splits)

lemma resubscribe_settled_invoked:
  "\<exists>rest. invoked (resubscribe_settled entry response st) = invoked st @ rest"
  by (cases entry) (simp add: resubscribe_settled_def callConsumers_def split: sum.splits prod.splits)

lemma onData_invoked:
  "\<exists>rest. invoked (onData itemName parameters data st) = invoked st @ rest"
  by (simp add: onData_def callConsumers_def split: prod.splits)

lemma step_invoked: "\<exists>rest. invoked (step ev st) = invoked st @ rest"
proof (cases ev)
  case (SubscribeCalled i p c)
  then show ?thesis by (simp add: subscribe_start_invoked)
next
  case (SubscribeSettled i p c response)
  then show ?thesis by (simp add: subscribe_resume_invoked)
next
  case (UnsubscribeCalled i p c response)
  then show ?thesis by (simp add: unsubscribe_invoked)
next
  case (ResubscribeSettled entry response)
  then show ?thesis by (simp add: resubscribe_settled_invoked)
next
  case (DataFrame i p d)
  then show ?thesis by (simp add: onData_invoked)
next
  case SocketOpened
  then show ?thesis by (simp add: resubscribe_state Let_def split: prod.splits)
next
  case (SocketFailed e)
  then show ?thesis by simp
next
  case BackoffElapsed
  then show ?thesis by simp
next
  case CloseCalled
  then show ?thesis by (simp add: close_def)
qed

lemma run_invoked: "\<exists>rest. invoked (run evs st) = invoked st @ rest"
proof (induction evs arbitrary: st)
  case Nil
  then show ?case by (simp add: run_def)
next
  case (Cons ev evs)
  obtain r1 where r1: "invoked (step ev st) = invoked st @ r1"
    using step_invoked by blast
  obtain r2 where r2: "invoked (run evs (step ev st)) = invoked (step ev st) @ r2"
    using Cons.IH by blast
  have "invoked (run (ev # evs) st) = invoked st @ (r1 @ r2)"
    using r1 r2 by (simp add: run_def)
  then show ?case by blast
qed

lemma map_of_delete_same: "map_of (AList.delete k al) k = None"
  by (simp add: delete_conv')

lemma map_of_update_same: "map_of (AList.update k v al) k = Some v"
  by (simp add: update_conv')

lemma unsubscribe_consumersOf:
  "consumersOf itemName parameters (snd (RemoteSubscriptions_unsubscribe itemName parameters consumer r))
     = remove1 consumer (consumersOf itemName parameters r)"
  by (auto simp: RemoteSubscriptions_unsubscribe_def consumersOf_def Let_def
        map_of_delete_same map_of_update_same split: option.splits)

lemma unsubscribe_noSubscriptionsLeft:
  "fst (RemoteSubscriptions_unsubscribe itemName parameters consumer r)
     = (remove1 consumer (consumersOf itemName parameters r) = [])"
  by (auto simp: RemoteSubscriptions_unsubscribe_def consumersOf_def Let_def split: option.splits)

lemma fold_unsubscribe_consumersOf:
  "consumersOf itemName parameters
     (fold (\<lambda>consumer r. snd (RemoteSubscriptions_unsubscribe itemName parameters consumer r)) cs r)
     = fold remove1 cs (consumersOf itemName parameters r)"
  by (induction cs arbitrary: r) (simp_all add: unsubscribe_consumersOf)

lemma fold_remove1_self: "fold remove1 cs cs = []"
  by (induction cs) simp_all

lemma subscribe_keys:
  "distinct (map fst (subscriptions r))
   \<Longrightarrow> distinct (map fst (subscriptions (snd (RemoteSubscriptions_subscribe v i p c r))))"
  by (simp add: RemoteSubscriptions_subscribe_def Let_def distinct_update)

lemma unsubscribe_keys:
  "distinct (map fst (subscriptions r))
   \<Longrightarrow> distinct (map fst (subscriptions (snd (RemoteSubscriptions_unsubscribe i p c r))))"
  by (simp add: RemoteSubscriptions_unsubscribe_def Let_def distinct_update distinct_delete
        split: option.splits)

lemma consume_keys:
  "distinct (map fst (subscriptions r))
   \<Longrightarrow> distinct (map fst (subscriptions (snd (RemoteSubscriptions_consume i p d r))))"
  by (simp add: RemoteSubscriptions_consume_def Let_def distinct_update split: option.splits)

lemma fold_unsubscribe_keys:
  "distinct (map fst (subscriptions r))
   \<Longrightarrow> distinct (map fst (subscriptions
         (fold (\<lambda>consumer r. snd (RemoteSubscriptions_unsubscribe i p consumer r)) cs r)))"
  by (induction cs arbitrary: r) (simp_all add: unsubscribe_keys)

lemma step_keys_distinct:
  assumes "keys_distinct st"
  shows "keys_distinct (step ev st)"
proof (cases ev)
  case (SubscribeCalled i p c)
  then show ?thesis using assms by (simp add: keys_distinct_def subscribe_start_registry)
next
  case (SubscribeSettled i p c response)
  then show ?thesis using assms
    by (cases response)
       (simp_all add: keys_distinct_def subscribe_resume_def callConsumers_def case_prod_beta subscribe_keys)
next
  case (UnsubscribeCalled i p c response)
  then show ?thesis using assms
    by (simp add: keys_distinct_def unsubscribe_def Let_def httpRequest_def case_prod_beta unsubscribe_keys)
next
  case (ResubscribeSettled entry response)
  then show ?thesis using assms
    by (cases entry; cases response)
       (simp_all add: keys_distinct_def resubscribe_settled_def callConsumers_def case_prod_beta
          consume_keys fold_unsubscribe_keys)
next
  case (DataFrame i p d)
  then show ?thesis using assms
    by (simp add: keys_distinct_def onData_def callConsumers_def case_prod_beta consume_keys)
next
  case SocketOpened
  then show ?thesis using assms
    by (simp add: keys_distinct_def resubscribe_state Let_def case_prod_beta)
next
  case (SocketFailed e)
  then show ?thesis using assms by (simp add: keys_distinct_def)
next
  case BackoffElapsed
  then show ?thesis using assms by (simp add: keys_distinct_def)
next
  case CloseCalled
  then show ?thesis using assms by (simp add: keys_distinct_def close_def)
qed

lemma run_keys_distinct: "keys_distinct st \<Longrightarrow> keys_distinct (run evs st)"
  unfolding run_def by (induction evs arbitrary: st) (simp_all add: step_keys_distinct)

lemma unsubscribe_issued_iff:
  "HttpUnsubscribe itemName parameters
      \<in> set (drop (length (httpRequests st))
                (httpRequests (snd (unsubscribe itemName parameters consumer response st))))
     \<longleftrightarrow> fst (RemoteSubscriptions_unsubscribe itemName parameters consumer (remoteSubscriptions st))"
  by (simp add: unsubscribe_def Let_def httpRequest_def case_prod_beta)

section \<open>A failed subscribe\<close>

text \<open>
  Claim C1. When the HTTP subscribe fails, \<open>subscribe\<close> leaves the registry as it was and
  hands the error to its caller: the part of \<open>subscribe\<close> that runs before the \<open>await\<close>
  does not change the registry, and the part that runs after a rejection returns that
  error and changes nothing, in whatever state the client is by then.
\<close>

theorem subscribe_failure_leaves_registry:
  "remoteSubscriptions (subscribe_start itemName parameters consumer st) = remoteSubscriptions st
   \<and> subscribe_resume itemName parameters consumer (Inl e) st' = (Inl e, st')
   \<and> fst (subscribe itemName parameters consumer (Inl e) st) = Inl e
   \<and> remoteSubscriptions (snd (subscribe itemName parameters consumer (Inl e) st)) = remoteSubscriptions st"
  by (simp add: subscribe_def subscribe_resume_def subscribe_start_registry)

text \<open>
  The supplier of \<open>test/item\<close> throws \<open>AA\<close>: the new consumer 14 saw the cached value,
  the request was made, and the registry is the one before the call.
\<close>

theorem subscribe_failure_leaves_registry_witness:
  "subscribe ''test/item'' ''[]'' 4 (Inl (Error ''AA'')) test_client
     = (Inl (Error ''AA''),
        test_client\<lparr>connection := \<lparr>phase = Connecting, openedBefore = False\<rparr>,
                     httpRequests := [HttpSubscribe ''test/item'' ''[]''],
                     invoked := [(4, 5)]\<rparr>)
   \<and> remoteSubscriptions (snd (subscribe ''test/item'' ''[]'' 4 (Inl (Error ''AA'')) test_client))
     = remoteSubscriptions test_client"
proof -
  have "subscribe ''test/item'' ''[]'' 4 (Inl (Error ''AA'')) test_client
     = (Inl (Error ''AA''),
        test_client\<lparr>connection := \<lparr>phase = Connecting, openedBefore = False\<rparr>,
                     httpRequests := [HttpSubscribe ''test/item'' ''[]''],
                     invoked := [(4, 5)]\<rparr>)"
    by (simp add: subscribe_def subscribe_resume_def subscribe_start_def getCached_def Let_def
          callConsumers_def httpRequest_def WebSocketConnection_connect_def test_client_def)
  moreover have "remoteSubscriptions (snd (subscribe ''test/item'' ''[]'' 4 (Inl (Error ''AA'')) test_client))
     = remoteSubscriptions test_client"
    using subscribe_failure_leaves_registry [of "''test/item''" "''[]''" 4 test_client "Error ''AA''"]
    by blast
  ultimately show ?thesis by blast
qed

section \<open>Unsubscribe and its request\<close>

text \<open>
  Claim C2. \<open>unsubscribe\<close> makes the HTTP unsubscribe request for the key exactly when
  the registry's \<open>unsubscribe\<close> returned \<open>true\<close>, and otherwise makes no request; and the
  registry returns \<open>true\<close> exactly when no consumer remains for the key.
\<close>

theorem unsubscribe_request_iff_none_left:
  "httpRequests (snd (unsubscribe itemName parameters consumer response st)) =
     (if fst (RemoteSubscriptions_unsubscribe itemName parameters consumer (remoteSubscriptions st))
      then httpRequests st @ [HttpUnsubscribe itemName parameters]
      else httpRequests st)
   \<and> (HttpUnsubscribe itemName parameters
         \<in> set (drop (length (httpRequests st))
                   (httpRequests (snd (unsubscribe itemName parameters consumer response st))))
       \<longleftrightarrow> fst (RemoteSubscriptions_unsubscribe itemName parameters consumer (remoteSubscriptions st)))
   \<and> fst (RemoteSubscriptions_unsubscribe itemName parameters consumer (remoteSubscriptions st))
     = (consumersOf itemName parameters
          (snd (RemoteSubscriptions_unsubscribe itemName parameters consumer (remoteSubscriptions st))) = [])"
  by (simp add: unsubscribe_issued_iff)
     (simp add: unsubscribe_def Let_def httpRequest_def unsubscribe_consumersOf
        unsubscribe_noSubscriptionsLeft case_prod_beta)

text \<open>
  Consumer 11 leaves \<open>test/item\<close> and consumer 12 remains: no request. Consumer 13 is
  the last one of \<open>item\<close>: one request.
\<close>

theorem unsubscribe_request_iff_none_left_witness:
  "httpRequests (snd (unsubscribe ''test/item'' ''[]'' 11 (Inr ()) test_client)) = []
   \<and> httpRequests (snd (unsubscribe ''item'' ''[]'' 13 (Inr ()) test_client)) = [HttpUnsubscribe ''item'' ''[]'']"
proof -
  have a: "fst (RemoteSubscriptions_unsubscribe ''test/item'' ''[]'' 11 (remoteSubscriptions test_client)) = False"
    by (simp add: RemoteSubscriptions_unsubscribe_def test_client_def Let_def)
  have b: "fst (RemoteSubscriptions_unsubscribe ''item'' ''[]'' 13 (remoteSubscriptions test_client)) = True"
    by (simp add: RemoteSubscriptions_unsubscribe_def test_client_def Let_def)
  have c: "httpRequests test_client = []"
    by (simp add: test_client_def)
  show ?thesis
    using unsubscribe_request_iff_none_left [of "''test/item''" "''[]''" 11 "Inr ()" test_client]
      unsubscribe_request_iff_none_left [of "''item''" "''[]''" 13 "Inr ()" test_client]
    by (simp add: a b c)
qed

text \<open>
  Claim C6 says that an error of the HTTP unsubscribe is logged and swallowed. The code
  awaits \<open>httpClient.unsubscribe\<close> with no \<open>try\<close> around it: when the last consumer of
  \<open>item\<close> unsubscribes and the request times out, the promise of \<open>unsubscribe\<close> rejects
  with the timeout.
\<close>

theorem unsubscribe_http_error_swallowed_counterexample:
  "fst (unsubscribe ''item'' ''[]'' 13 (Inl (RpcError 504 ''Timeout'')) test_client)
     = Inl (RpcError 504 ''Timeout'')
   \<and> fst (unsubscribe ''item'' ''[]'' 13 (Inl (RpcError 504 ''Timeout'')) test_client) \<noteq> Inr ()"
  by (simp add: unsubscribe_def RemoteSubscriptions_unsubscribe_def test_client_def Let_def)

text \<open>
  Claim C6, as the code has it. When the registry answered that no consumer is left and
  the HTTP unsubscribe fails, the error is raised to the caller of \<open>unsubscribe\<close>; the
  registry had been updated before the request was made, and keeps that update.
\<close>

theorem unsubscribe_http_error_propagates:
  assumes "fst (RemoteSubscriptions_unsubscribe itemName parameters consumer (remoteSubscriptions st))"
  shows "fst (unsubscribe itemName parameters consumer (Inl e) st) = Inl e
       \<and> remoteSubscriptions (snd (unsubscribe itemName parameters consumer (Inl e) st))
         = snd (RemoteSubscriptions_unsubscribe itemName parameters consumer (remoteSubscriptions st))
       \<and> httpRequests (snd (unsubscribe itemName parameters consumer (Inl e) st))
         = httpRequests st @ [HttpUnsubscribe itemName parameters]"
  using assms by (simp add: unsubscribe_def Let_def httpRequest_def case_prod_beta)

text \<open>
  The last consumer of \<open>item\<close> unsubscribes and the network is down: the caller gets the
  error, and \<open>item\<close> has no consumer any more.
\<close>

theorem unsubscribe_http_error_propagates_witness:
  "fst (RemoteSubscriptions_unsubscribe ''item'' ''[]'' 13 (remoteSubscriptions test_client))
   \<and> fst (unsubscribe ''item'' ''[]'' 13 (Inl (Error ''network'')) test_client) = Inl (Error ''network'')
   \<and> consumersOf ''item'' ''[]''
        (remoteSubscriptions (snd (unsubscribe ''item'' ''[]'' 13 (Inl (Error ''network'')) test_client))) = []"
proof -
  have a: "fst (RemoteSubscriptions_unsubscribe ''item'' ''[]'' 13 (remoteSubscriptions test_client))"
    by (simp add: RemoteSubscriptions_unsubscribe_def test_client_def Let_def)
  have b: "consumersOf ''item'' ''[]''
        (snd (RemoteSubscriptions_unsubscribe ''item'' ''[]'' 13 (remoteSubscriptions test_client))) = []"
    by (subst unsubscribe_consumersOf) (simp add: consumersOf_def test_client_def)
  from unsubscribe_http_error_propagates [OF a, of "Error ''network''"] a b
  show ?thesis by simp
qed

section \<open>Close\<close>

text \<open>
  Claim C7. \<open>close()\<close> closes the connection and leaves the registry as it is: every key,
  its consumers and its last value are the same after the call, and so are the two
  traces.
\<close>

theorem close_leaves_registry:
  "remoteSubscriptions (close st) = remoteSubscriptions st
   \<and> phase (connection (close st)) = Closed
   \<and> \<not> isConnected (connection (close st))
   \<and> getAllSubscriptions (remoteSubscriptions (close st)) = getAllSubscriptions (remoteSubscriptions st)
   \<and> getCached itemName parameters (remoteSubscriptions (close st))
     = getCached itemName parameters (remoteSubscriptions st)
   \<and> invoked (close st) = invoked st
   \<and> httpRequests (close st) = httpRequests st"
  by (simp add: close_def WebSocketConnection_close_def isConnected_def)

text \<open>The example client, closed: both keys keep their consumers and the last value 5.\<close>

theorem close_leaves_registry_witness:
  "getAllSubscriptions (remoteSubscriptions (close test_client))
     = [(''test/item'', ''[]'', [11, 12]), (''item'', ''[]'', [13])]
   \<and> getCached ''test/item'' ''[]'' (remoteSubscriptions (close test_client)) = Some 5
   \<and> phase (connection (close test_client)) = Closed"
proof -
  have "getAllSubscriptions (remoteSubscriptions test_client)
     = [(''test/item'', ''[]'', [11, 12]), (''item'', ''[]'', [13])]"
    by (simp add: getAllSubscriptions_def test_client_def)
  moreover have "getCached ''test/item'' ''[]'' (remoteSubscriptions test_client) = Some 5"
    by (simp add: getCached_def test_client_def)
  ultimately show ?thesis
    using close_leaves_registry [of test_client "''test/item''" "''[]''"] by simp
qed

lemma getAllSubscriptions_consumersOf:
  assumes "distinct (map fst (subscriptions r))"
    and "(itemName, params, cs) \<in> set (getAllSubscriptions r)"
  shows "consumersOf itemName params r = cs"
proof -
  from assms(2) obtain s where s: "((itemName, params), s) \<in> set (subscriptions r)" and cs: "cs = consumers s"
    by (auto simp: getAllSubscriptions_def)
  from assms(1) s have "map_of (subscriptions r) (itemName, params) = Some s"
    by (rule map_of_is_SomeI)
  with cs show ?thesis by (simp add: consumersOf_def)
qed

lemma subscribe_getCached:
  "getCached itemName parameters
     (snd (RemoteSubscriptions_subscribe data itemName parameters consumer r)) = Some data"
  by (simp add: RemoteSubscriptions_subscribe_def getCached_def Let_def map_of_update_same)

lemma subscribe_consumersOf:
  "consumersOf itemName parameters
     (snd (RemoteSubscriptions_subscribe data itemName parameters consumer r))
     = consumersOf itemName parameters r @ [consumer]"
  by (simp add: RemoteSubscriptions_subscribe_def Let_def consumersOf_def map_of_update_same)

lemma subscribe_resume_registry:
  "remoteSubscriptions (snd (subscribe_resume itemName parameters consumer (Inr data) st))
     = snd (RemoteSubscriptions_subscribe data itemName parameters consumer (remoteSubscriptions st))"
  by (simp add: subscribe_resume_def callConsumers_def case_prod_beta)

section \<open>Resubscribe\<close>

lemma fold_remove1_keeps:
  "c \<notin> set cs \<Longrightarrow> c \<in> set xs \<Longrightarrow> c \<in> set (fold remove1 cs xs)"
proof (induction cs arbitrary: xs)
  case Nil
  then show ?case by simp
next
  case (Cons x cs)
  from Cons.prems have "c \<noteq> x" and "c \<notin> set cs" by auto
  with Cons.prems(2) have "c \<in> set (remove1 x xs)" by simp
  with \<open>c \<notin> set cs\<close> show ?case by (simp add: Cons.IH)
qed

lemma resubscribe_settled_failed:
  "consumersOf itemName params
     (remoteSubscriptions (resubscribe_settled (itemName, params, cs) (Inl e) s))
     = fold remove1 cs (consumersOf itemName params (remoteSubscriptions s))"
  by (simp add: resubscribe_settled_def fold_unsubscribe_consumersOf)

text \<open>
  Claim C3 says that when the HTTP subscribe of a key fails, every current consumer of
  that key is detached. The \<open>catch\<close> handler runs when the promise has settled and
  iterates the consumers that \<open>getAllSubscriptions()\<close> returned when \<open>resubscribe\<close> ran.
  On the example client the entry of \<open>test/item\<close> holds the consumers 11 and 12; the
  subscribe of consumer 15 settles before the failure arrives, so the key then has 11,
  12 and 15, and after the failure consumer 15 is still attached.
\<close>

theorem resubscribe_failure_detaches_current_counterexample:
  "(''test/item'', ''[]'', [11, 12]) \<in> set (fst (resubscribe test_client))
   \<and> consumersOf ''test/item'' ''[]''
        (remoteSubscriptions
           (run [SubscribeSettled ''test/item'' ''[]'' 15 (Inr 9)] (snd (resubscribe test_client))))
       = [11, 12, 15]
   \<and> consumersOf ''test/item'' ''[]''
        (remoteSubscriptions
           (resubscribe_settled (''test/item'', ''[]'', [11, 12]) (Inl (Error ''AA''))
              (run [SubscribeSettled ''test/item'' ''[]'' 15 (Inr 9)] (snd (resubscribe test_client)))))
       = [15]"
proof -
  have a: "(''test/item'', ''[]'', [11, 12]) \<in> set (fst (resubscribe test_client))"
    by (simp add: resubscribe_def Let_def getAllSubscriptions_def test_client_def)
  have b: "consumersOf ''test/item'' ''[]''
        (remoteSubscriptions
           (run [SubscribeSettled ''test/item'' ''[]'' 15 (Inr 9)] (snd (resubscribe test_client))))
       = [11, 12, 15]"
    by (simp add: run_def subscribe_resume_registry resubscribe_state subscribe_consumersOf)
       (simp add: consumersOf_def test_client_def)
  have "consumersOf ''test/item'' ''[]''
        (remoteSubscriptions
           (resubscribe_settled (''test/item'', ''[]'', [11, 12]) (Inl (Error ''AA''))
              (run [SubscribeSettled ''test/item'' ''[]'' 15 (Inr 9)] (snd (resubscribe test_client)))))
       = fold remove1 [11, 12] [11, 12, 15]"
    by (simp only: resubscribe_settled_failed b)
  then have c: "consumersOf ''test/item'' ''[]''
        (remoteSubscriptions
           (resubscribe_settled (''test/item'', ''[]'', [11, 12]) (Inl (Error ''AA''))
              (run [SubscribeSettled ''test/item'' ''[]'' 15 (Inr 9)] (snd (resubscribe test_client)))))
       = [15]"
    by simp
  from a b c show ?thesis by blast
qed

text \<open>
  Claim C3, as the code has it. \<open>resubscribe\<close> makes one HTTP subscribe request for every
  entry of the registry's snapshot, so for every key in it. When the request of a key
  succeeds, the value goes through \<open>consume\<close> for that key: the registry is the one
  \<open>consume\<close> returns and the consumers it calls are called. When it fails, \<open>unsubscribe\<close>
  is called for every consumer of the snapshot entry: of the consumers the key has at
  that time, one occurrence is removed for each consumer of the entry. The key has no
  consumer afterwards when its consumers at that time are those of the entry, as they
  are when the failure arrives with the registry as \<open>resubscribe\<close> left it; a consumer
  that is not in the entry and has joined the key since stays attached. The keys of the
  registry are distinct, as they are in every state a client reaches.
\<close>

theorem resubscribe_detaches_snapshot_consumers:
  assumes "keys_distinct st"
    and "(itemName, params, cs) \<in> set (getAllSubscriptions (remoteSubscriptions st))"
  shows "fst (resubscribe st) = getAllSubscriptions (remoteSubscriptions st)
       \<and> httpRequests (snd (resubscribe st))
           = httpRequests st @ map (\<lambda>(itemName, params, cs). HttpSubscribe itemName params)
                                 (getAllSubscriptions (remoteSubscriptions st))
       \<and> HttpSubscribe itemName params \<in> set (httpRequests (snd (resubscribe st)))
       \<and> remoteSubscriptions (resubscribe_settled (itemName, params, cs) (Inr data) st')
           = snd (RemoteSubscriptions_consume itemName params data (remoteSubscriptions st'))
       \<and> invoked (resubscribe_settled (itemName, params, cs) (Inr data) st')
           = invoked st' @ fst (RemoteSubscriptions_consume itemName params data (remoteSubscriptions st'))
       \<and> consumersOf itemName params
            (remoteSubscriptions (resubscribe_settled (itemName, params, cs) (Inl e) st'))
           = fold remove1 cs (consumersOf itemName params (remoteSubscriptions st'))
       \<and> consumersOf itemName params
            (remoteSubscriptions (resubscribe_settled (itemName, params, cs) (Inl e) (snd (resubscribe st))))
           = []
       \<and> (consumersOf itemName params (remoteSubscriptions st') = cs \<longrightarrow>
            consumersOf itemName params
              (remoteSubscriptions (resubscribe_settled (itemName, params, cs) (Inl e) st')) = [])
       \<and> (c \<notin> set cs \<and> c \<in> set (consumersOf itemName params (remoteSubscriptions st')) \<longrightarrow>
            c \<in> set (consumersOf itemName params
                        (remoteSubscriptions (resubscribe_settled (itemName, params, cs) (Inl e) st'))))"
proof -
  have entries: "fst (resubscribe st) = getAllSubscriptions (remoteSubscriptions st)"
    by (simp add: resubscribe_def Let_def)
  have requests: "httpRequests (snd (resubscribe st))
           = httpRequests st @ map (\<lambda>(itemName, params, cs). HttpSubscribe itemName params)
                                 (getAllSubscriptions (remoteSubscriptions st))"
    by (simp add: resubscribe_state)
  have "HttpSubscribe itemName params
      \<in> (\<lambda>(itemName, params, cs). HttpSubscribe itemName params) ` set (getAllSubscriptions (remoteSubscriptions st))"
    using assms(2) by force
  then have issued: "HttpSubscribe itemName params \<in> set (httpRequests (snd (resubscribe st)))"
    by (simp add: requests)
  have ok1: "remoteSubscriptions (resubscribe_settled (itemName, params, cs) (Inr data) st')
           = snd (RemoteSubscriptions_consume itemName params data (remoteSubscriptions st'))"
    by (simp add: resubscribe_settled_def callConsumers_def case_prod_beta)
  have ok2: "invoked (resubscribe_settled (itemName, params, cs) (Inr data) st')
           = invoked st' @ fst (RemoteSubscriptions_consume itemName params data (remoteSubscriptions st'))"
    by (simp add: resubscribe_settled_def callConsumers_def case_prod_beta)
  have failed: "consumersOf itemName params
            (remoteSubscriptions (resubscribe_settled (itemName, params, cs) (Inl e) s))
           = fold remove1 cs (consumersOf itemName params (remoteSubscriptions s))" for s
    by (rule resubscribe_settled_failed)
  have same: "consumersOf itemName params
              (remoteSubscriptions (resubscribe_settled (itemName, params, cs) (Inl e) s)) = []"
    if "consumersOf itemName params (remoteSubscriptions s) = cs" for s
    using that by (simp add: failed fold_remove1_self)
  have "consumersOf itemName params (remoteSubscriptions (snd (resubscribe st))) = cs"
    using getAllSubscriptions_consumersOf [OF assms [unfolded keys_distinct_def]]
    by (simp add: resubscribe_state)
  then have atonce: "consumersOf itemName params
            (remoteSubscriptions (resubscribe_settled (itemName, params, cs) (Inl e) (snd (resubscribe st))))
           = []"
    by (rule same)
  have stays: "c \<in> set (consumersOf itemName params
                        (remoteSubscriptions (resubscribe_settled (itemName, params, cs) (Inl e) st')))"
    if "c \<notin> set cs" and "c \<in> set (consumersOf itemName params (remoteSubscriptions st'))"
    using that by (simp add: failed fold_remove1_keeps)
  from entries requests issued ok1 ok2 failed [of st'] atonce same [of st'] stays
  show ?thesis by blast
qed

text \<open>
  The example client reconnects: two requests, the value 9 for \<open>test/item\<close> reaches the
  consumers 11 and 12, and a failure for \<open>test/item\<close> that arrives at once detaches
  both. When consumer 15 has joined in between, it stays.
\<close>

theorem resubscribe_detaches_snapshot_consumers_witness:
  "keys_distinct test_client
   \<and> (''test/item'', ''[]'', [11, 12]) \<in> set (getAllSubscriptions (remoteSubscriptions test_client))
   \<and> httpRequests (snd (resubscribe test_client))
       = [HttpSubscribe ''test/item'' ''[]'', HttpSubscribe ''item'' ''[]'']
   \<and> invoked (resubscribe_settled (''test/item'', ''[]'', [11, 12]) (Inr 9) (snd (resubscribe test_client)))
       = [(11, 9), (12, 9)]
   \<and> consumersOf ''test/item'' ''[]'' (remoteSubscriptions (snd (resubscribe test_client))) = [11, 12]
   \<and> consumersOf ''test/item'' ''[]''
        (remoteSubscriptions (resubscribe_settled (''test/item'', ''[]'', [11, 12]) (Inl (Error ''AA''))
           (snd (resubscribe test_client)))) = []
   \<and> 15 \<notin> set [11, 12 :: nat]
   \<and> 15 \<in> set (consumersOf ''test/item'' ''[]''
        (remoteSubscriptions
           (run [SubscribeSettled ''test/item'' ''[]'' 15 (Inr 9)] (snd (resubscribe test_client)))))
   \<and> 15 \<in> set (consumersOf ''test/item'' ''[]''
        (remoteSubscriptions
           (resubscribe_settled (''test/item'', ''[]'', [11, 12]) (Inl (Error ''AA''))
              (run [SubscribeSettled ''test/item'' ''[]'' 15 (Inr 9)] (snd (resubscribe test_client))))))"
proof -
  have a: "keys_distinct test_client"
    by (simp add: keys_distinct_def test_client_def)
  have all: "getAllSubscriptions (remoteSubscriptions test_client)
     = [(''test/item'', ''[]'', [11, 12]), (''item'', ''[]'', [13])]"
    by (simp add: getAllSubscriptions_def test_client_def)
  have b: "(''test/item'', ''[]'', [11, 12]) \<in> set (getAllSubscriptions (remoteSubscriptions test_client))"
    by (simp add: all)
  note inst = resubscribe_detaches_snapshot_consumers [OF a b,
      where st' = "snd (resubscribe test_client)" and data = 9 and e = "Error ''AA''"]
  note joined = resubscribe_detaches_snapshot_consumers [OF a b,
      where st' = "run [SubscribeSettled ''test/item'' ''[]'' 15 (Inr 9)] (snd (resubscribe test_client))"
        and e = "Error ''AA''" and c = 15]
  have h: "httpRequests test_client = []"
    by (simp add: test_client_def)
  from inst have "httpRequests (snd (resubscribe test_client))
       = httpRequests test_client @ map (\<lambda>(itemName, params, cs). HttpSubscribe itemName params)
                                 (getAllSubscriptions (remoteSubscriptions test_client))"
    by blast
  then have c: "httpRequests (snd (resubscribe test_client))
       = [HttpSubscribe ''test/item'' ''[]'', HttpSubscribe ''item'' ''[]'']"
    by (simp add: all h)
  have consumed: "fst (RemoteSubscriptions_consume ''test/item'' ''[]'' 9 (remoteSubscriptions (snd (resubscribe test_client))))
      = [(11, 9), (12, 9)]"
    by (simp add: RemoteSubscriptions_consume_def resubscribe_state test_client_def Let_def)
  have none: "invoked (snd (resubscribe test_client)) = []"
    by (simp add: resubscribe_state test_client_def)
  from inst have "invoked (resubscribe_settled (''test/item'', ''[]'', [11, 12]) (Inr 9) (snd (resubscribe test_client)))
       = invoked (snd (resubscribe test_client))
           @ fst (RemoteSubscriptions_consume ''test/item'' ''[]'' 9 (remoteSubscriptions (snd (resubscribe test_client))))"
    by blast
  then have d: "invoked (resubscribe_settled (''test/item'', ''[]'', [11, 12]) (Inr 9) (snd (resubscribe test_client)))
       = [(11, 9), (12, 9)]"
    by (simp add: consumed none)
  have same: "consumersOf ''test/item'' ''[]'' (remoteSubscriptions (snd (resubscribe test_client))) = [11, 12]"
    by (simp add: resubscribe_state consumersOf_def test_client_def)
  from inst same have f: "consumersOf ''test/item'' ''[]''
        (remoteSubscriptions (resubscribe_settled (''test/item'', ''[]'', [11, 12]) (Inl (Error ''AA''))
           (snd (resubscribe test_client)))) = []"
    by blast
  have g: "15 \<notin> set [11, 12 :: nat]"
    by simp
  have "consumersOf ''test/item'' ''[]''
        (remoteSubscriptions
           (run [SubscribeSettled ''test/item'' ''[]'' 15 (Inr 9)] (snd (resubscribe test_client))))
       = [11, 12, 15]"
    by (simp add: run_def subscribe_resume_registry resubscribe_state subscribe_consumersOf)
       (simp add: consumersOf_def test_client_def)
  then have i: "15 \<in> set (consumersOf ''test/item'' ''[]''
        (remoteSubscriptions
           (run [SubscribeSettled ''test/item'' ''[]'' 15 (Inr 9)] (snd (resubscribe test_client)))))"
    by simp
  from joined g i have j: "15 \<in> set (consumersOf ''test/item'' ''[]''
        (remoteSubscriptions
           (resubscribe_settled (''test/item'', ''[]'', [11, 12]) (Inl (Error ''AA''))
              (run [SubscribeSettled ''test/item'' ''[]'' 15 (Inr 9)] (snd (resubscribe test_client))))))"
    by blast
  from a b c d same f g i j show ?thesis by blast
qed

section \<open>Subscribe while disconnected\<close>

text \<open>
  Claim C4. With push delivery enabled and the socket disconnected, \<open>subscribe\<close> starts
  \<open>connect()\<close>. Whatever error the socket then fails with, and whatever else happens
  before and after, the \<open>subscribe\<close> whose HTTP request answers with a value resolves, the
  consumer is called with that value, and the value is the cached one of the key, of which
  the consumer is now one.
\<close>

theorem connect_failure_not_propagated:
  assumes "options_subscribe st" and "phase (connection st) = Disconnected"
  shows "phase (connection (subscribe_start itemName parameters consumer st)) = Connecting
       \<and> fst (subscribe_resume itemName parameters consumer (Inr data)
               (run (before @ SocketFailed e # after) (subscribe_start itemName parameters consumer st)))
           = Inr ()
       \<and> invoked (snd (subscribe_resume itemName parameters consumer (Inr data)
               (run (before @ SocketFailed e # after) (subscribe_start itemName parameters consumer st))))
           = invoked (run (before @ SocketFailed e # after) (subscribe_start itemName parameters consumer st))
               @ [(consumer, data)]
       \<and> getCached itemName parameters
            (remoteSubscriptions (snd (subscribe_resume itemName parameters consumer (Inr data)
               (run (before @ SocketFailed e # after) (subscribe_start itemName parameters consumer st)))))
           = Some data
       \<and> consumer \<in> set (consumersOf itemName parameters
            (remoteSubscriptions (snd (subscribe_resume itemName parameters consumer (Inr data)
               (run (before @ SocketFailed e # after) (subscribe_start itemName parameters consumer st))))))"
proof -
  have "phase (connection (subscribe_start itemName parameters consumer st)) = Connecting"
    using assms
    by (simp add: subscribe_start_def Let_def callConsumers_def httpRequest_def WebSocketConnection_connect_def
          split: option.splits)
  moreover have "fst (subscribe_resume itemName parameters consumer (Inr data) s) = Inr ()" for s
    by (simp add: subscribe_resume_def case_prod_beta)
  moreover have "invoked (snd (subscribe_resume itemName parameters consumer (Inr data) s))
      = invoked s @ [(consumer, data)]" for s
    by (simp add: subscribe_resume_invoked)
  moreover have "getCached itemName parameters
      (remoteSubscriptions (snd (subscribe_resume itemName parameters consumer (Inr data) s))) = Some data" for s
    by (simp add: subscribe_resume_registry subscribe_getCached)
  moreover have "consumer \<in> set (consumersOf itemName parameters
      (remoteSubscriptions (snd (subscribe_resume itemName parameters consumer (Inr data) s))))" for s
    by (simp add: subscribe_resume_registry subscribe_consumersOf)
  ultimately show ?thesis by blast
qed

text \<open>
  Consumer 14 subscribes to \<open>test/item\<close> on the example client, the connection is
  refused, and the HTTP request answers 6.
\<close>

theorem connect_failure_not_propagated_witness:
  "options_subscribe test_client
   \<and> phase (connection test_client) = Disconnected
   \<and> subscribe_resume ''test/item'' ''[]'' 14 (Inr 6)
       (run [SocketFailed (Error ''ECONNREFUSED'')] (subscribe_start ''test/item'' ''[]'' 14 test_client))
     = (Inr (),
        \<lparr>options_subscribe = True,
         remoteSubscriptions =
           \<lparr>subscriptions =
              [((''test/item'', ''[]''), \<lparr>consumers = [11, 12, 14], lastValue = Some 6\<rparr>),
               ((''item'', ''[]''), \<lparr>consumers = [13], lastValue = Some 7\<rparr>)],
            cache = None\<rparr>,
         connection = \<lparr>phase = Backoff, openedBefore = False\<rparr>,
         httpRequests = [HttpSubscribe ''test/item'' ''[]''], invoked = [(14, 5), (14, 6)]\<rparr>)"
proof -
  have a: "options_subscribe test_client" and b: "phase (connection test_client) = Disconnected"
    by (simp_all add: test_client_def)
  have c: "snd (subscribe_resume ''test/item'' ''[]'' 14 (Inr 6)
       (run [SocketFailed (Error ''ECONNREFUSED'')] (subscribe_start ''test/item'' ''[]'' 14 test_client)))
     = \<lparr>options_subscribe = True,
         remoteSubscriptions =
           \<lparr>subscriptions =
              [((''test/item'', ''[]''), \<lparr>consumers = [11, 12, 14], lastValue = Some 6\<rparr>),
               ((''item'', ''[]''), \<lparr>consumers = [13], lastValue = Some 7\<rparr>)],
            cache = None\<rparr>,
         connection = \<lparr>phase = Backoff, openedBefore = False\<rparr>,
         httpRequests = [HttpSubscribe ''test/item'' ''[]''], invoked = [(14, 5), (14, 6)]\<rparr>"
    by (simp add: run_def subscribe_resume_def subscribe_start_def getCached_def Let_def callConsumers_def
          httpRequest_def WebSocketConnection_connect_def socketError_def RemoteSubscriptions_subscribe_def
          consumersOf_def cachePut_def test_client_def)
  from connect_failure_not_propagated [OF a b, of "''test/item''" "''[]''" 14 6 "[]" "Error ''ECONNREFUSED''" "[]"]
  have "fst (subscribe_resume ''test/item'' ''[]'' 14 (Inr 6)
       (run [SocketFailed (Error ''ECONNREFUSED'')] (subscribe_start ''test/item'' ''[]'' 14 test_client)))
     = Inr ()"
    by simp
  with a b c show ?thesis by (simp add: prod_eq_iff)
qed

section \<open>The cached value comes first\<close>

text \<open>
  Claim C5. When \<open>getCached\<close> has a value for the key, \<open>subscribe\<close> calls the consumer
  with it synchronously, as the first thing it does. Every later call of a consumer, by
  whatever events follow, comes after it in the trace; in particular the call with the
  initial value of the HTTP subscribe, which is the last one when the request settles.
\<close>

theorem cached_value_first:
  assumes "getCached itemName parameters (remoteSubscriptions st) = Some v"
  shows "invoked (subscribe_start itemName parameters consumer st) = invoked st @ [(consumer, v)]
       \<and> (\<exists>rest. invoked (run evs (subscribe_start itemName parameters consumer st))
                    = invoked st @ (consumer, v) # rest)
       \<and> (\<exists>rest. invoked (snd (subscribe_resume itemName parameters consumer (Inr data)
                             (run evs (subscribe_start itemName parameters consumer st))))
                    = invoked st @ (consumer, v) # rest @ [(consumer, data)])"
proof -
  have start: "invoked (subscribe_start itemName parameters consumer st) = invoked st @ [(consumer, v)]"
    using assms by (simp add: subscribe_start_invoked)
  obtain rest where rest: "invoked (run evs (subscribe_start itemName parameters consumer st))
      = invoked (subscribe_start itemName parameters consumer st) @ rest"
    using run_invoked by blast
  then have later: "invoked (run evs (subscribe_start itemName parameters consumer st))
      = invoked st @ (consumer, v) # rest"
    by (simp add: start)
  have "invoked (snd (subscribe_resume itemName parameters consumer (Inr data)
                             (run evs (subscribe_start itemName parameters consumer st))))
                    = invoked st @ (consumer, v) # rest @ [(consumer, data)]"
    by (simp add: subscribe_resume_invoked later)
  with start later show ?thesis by blast
qed

text \<open>
  Consumer 14 subscribes to \<open>test/item\<close>: it sees the cached 5 first; a frame with 8
  reaches the consumers 11 and 12, and then the HTTP request answers 6.
\<close>

theorem cached_value_first_witness:
  "getCached ''test/item'' ''[]'' (remoteSubscriptions test_client) = Some 5
   \<and> invoked (subscribe_start ''test/item'' ''[]'' 14 test_client) = [(14, 5)]
   \<and> invoked (snd (subscribe_resume ''test/item'' ''[]'' 14 (Inr 6)
        (run [DataFrame ''test/item'' ''[]'' 8] (subscribe_start ''test/item'' ''[]'' 14 test_client))))
       = [(14, 5), (11, 8), (12, 8), (14, 6)]"
proof -
  have a: "getCached ''test/item'' ''[]'' (remoteSubscriptions test_client) = Some 5"
    by (simp add: getCached_def test_client_def)
  have i: "invoked test_client = []"
    by (simp add: test_client_def)
  from cached_value_first [OF a, of 14 "[]" 6]
  have b: "invoked (subscribe_start ''test/item'' ''[]'' 14 test_client) = [(14, 5)]"
    by (simp add: i)
  have c: "invoked (snd (subscribe_resume ''test/item'' ''[]'' 14 (Inr 6)
        (run [DataFrame ''test/item'' ''[]'' 8] (subscribe_start ''test/item'' ''[]'' 14 test_client))))
       = [(14, 5), (11, 8), (12, 8), (14, 6)]"
    by (simp add: run_def subscribe_resume_def subscribe_start_def getCached_def Let_def callConsumers_def
          httpRequest_def WebSocketConnection_connect_def onData_def RemoteSubscriptions_consume_def
          RemoteSubscriptions_subscribe_def consumersOf_def cachePut_def test_client_def)
  from a b c show ?thesis by blast
qed

end
